theory Spec2Isabelle
  imports Main "HOL-Library.Multiset"
begin

text \<open>
  A shallow embedding of \<open>src/ui/trip-points-list.js\<close>: the \<open>TripPointsList\<close> component,
  which filters and sorts the trip points of a data source, renders them grouped by day,
  and swaps a read-only view for an edit view and back. The component's fields, the view
  objects it creates and the children of its element are an explicit state; every method
  and callback takes the state and returns the new one, or the TypeError the JavaScript
  would throw.
\<close>

section \<open>Data model\<close>

text \<open>
  A trip point record as the list component reads it: \<open>id\<close> and \<open>dateFrom\<close> are the only
  fields \<open>trip-points-list.js\<close> looks at; \<open>dateTo\<close> is carried along. Dates are
  timestamps in milliseconds since the epoch (the loop of \<open>update\<close> starts from the
  number \<open>0\<close> as a date).
\<close>

record TripPointRecord =
  pointId :: nat
  dateFrom :: int
  dateTo :: int

datatype error = TypeError

text \<open>
  Values that can be assigned to \<open>sortFunction\<close> and \<open>filterFunction\<close>: a function
  (\<open>typeof v === 'function'\<close>) or any other JavaScript value.
\<close>

datatype jsvalue = JSNull | JSUndefined | JSBool bool | JSNumber int | JSString string | JSObject

datatype 'f assigned = Fn 'f | NotFn jsvalue

text \<open>
  The rendered tree below \<open>this._element\<close>: a message paragraph (text, and whether it
  carries the class \<open>visually-hidden\<close>) or a day section with its number, the date whose
  \<open>MMM D\<close> format is its title, and the elements of its items container. The element of
  a view is identified by the handle of the view that rendered it and shows that view's
  data.
\<close>

datatype item = PointEl nat TripPointRecord | EditEl nat TripPointRecord

record tripDay =
  dayNumber :: "int option"
  dayTitle :: int
  dayItems :: "item list"

datatype node = MessageEl string bool | DayEl tripDay

text \<open>
  The two view classes. \<open>tpElement\<close> and \<open>editElement\<close> say whether the view's
  \<open>element\<close> is non-null (rendered).
\<close>

record TripPoint =
  tpData :: TripPointRecord
  tpElement :: bool

datatype blocking = Unblocked | SavingBlock | DeletingBlock

record TripPointEdit =
  editData :: TripPointRecord
  editElement :: bool
  editBlocked :: blocking
  editShakes :: nat
  editUnsaved :: bool

text \<open>
  The state of a rendered \<open>TripPointsList\<close>. \<open>tripPointsData\<close> is the array held by the
  data source (\<open>None\<close> when \<open>getTripPoints()\<close> returns null); \<open>element\<close> is the list of
  children of \<open>this._element\<close>; \<open>pointViews\<close> and \<open>editViews\<close> are the heaps of view
  objects created so far, a handle being an index; \<open>tripPoints\<close> and \<open>tripPointEdit\<close>
  hold handles.
\<close>

record TripPointsList =
  sortFunction :: "(TripPointRecord \<Rightarrow> TripPointRecord \<Rightarrow> int) assigned"
  filterFunction :: "(TripPointRecord \<Rightarrow> bool) assigned"
  tripPointEdit :: "nat option"
  tripPoints :: "nat list"
  tripPointsData :: "TripPointRecord list option"
  message :: string
  element :: "node list"
  pointViews :: "TripPoint list"
  editViews :: "TripPointEdit list"

section \<open>Date utilities\<close>

text \<open>Calendar days are cut at the multiples of a day's milliseconds (UTC).\<close>

definition msPerDay :: int where
  "msPerDay = 86400000"

definition calendarDay :: "int \<Rightarrow> int" where
  "calendarDay t = t div msPerDay"

text \<open>
  Modelled from the spec: \<open>calcDaysDiff\<close> of \<open>utils/date-utils.js\<close> is not among the
  sources; the spec calls it the calendar-day difference between two dates.
\<close>

definition calcDaysDiff :: "int \<Rightarrow> int \<Rightarrow> int" where
  "calcDaysDiff date1 date2 = calendarDay date2 - calendarDay date1"

text \<open>
  Modelled from the spec: \<open>compareDate\<close> of \<open>utils/date-utils.js\<close> is not among the
  sources; the spec describes the default sort as a total order comparator by
  \<open>dateFrom\<close>.
\<close>

definition compareDate :: "int \<Rightarrow> int \<Rightarrow> int" where
  "compareDate date1 date2 = date1 - date2"

text \<open>
  Modelled from the spec: \<open>getTripStartDate\<close> of \<open>utils/trip-utils.js\<close> is not among the
  sources; the spec gives the minimum \<open>dateFrom\<close> over the records it is passed, and the
  earlier revision of the component has it as
  \<open>reduce((min, point) => point.date < min ? point.date : min, Infinity)\<close>.
  \<open>None\<close> stands for \<open>Infinity\<close>.
\<close>

definition getTripStartDate :: "TripPointRecord list \<Rightarrow> int option" where
  "getTripStartDate points =
     foldl (\<lambda>min point. case min of
                None \<Rightarrow> Some (dateFrom point)
              | Some m \<Rightarrow> if dateFrom point < m then Some (dateFrom point) else Some m)
       None points"

section \<open>Arrays\<close>

text \<open>
  \<open>Array.prototype.sort\<close> with a comparator is stable; it is modelled as the stable
  insertion sort driven by the sign of the comparator.
\<close>

fun insertBy :: "('a \<Rightarrow> 'a \<Rightarrow> int) \<Rightarrow> 'a \<Rightarrow> 'a list \<Rightarrow> 'a list" where
  "insertBy cmp x [] = [x]"
| "insertBy cmp x (y # ys) = (if cmp x y \<le> 0 then x # y # ys else y # insertBy cmp x ys)"

definition arraySort :: "('a \<Rightarrow> 'a \<Rightarrow> int) \<Rightarrow> 'a list \<Rightarrow> 'a list" where
  "arraySort cmp xs = foldr (insertBy cmp) xs []"

text \<open>\<open>indexOf\<close>: the first index of the value, or \<open>-1\<close>.\<close>

fun indexOf :: "'a list \<Rightarrow> 'a \<Rightarrow> int" where
  "indexOf [] v = -1"
| "indexOf (x # xs) v =
     (if x = v then 0 else (let i = indexOf xs v in if i < 0 then -1 else i + 1))"

text \<open>\<open>splice(start, 1)\<close>: a negative start counts from the end of the array.\<close>

definition splice1 :: "int \<Rightarrow> 'a list \<Rightarrow> 'a list" where
  "splice1 start xs =
     (let n = int (length xs);
          k = nat (if start < 0 then max (n + start) 0 else min start n)
      in take k xs @ drop (Suc k) xs)"

text \<open>
  Which array object a value is: the array held by the data source, or one created
  during the call (\<open>[]\<close>, or the result of \<open>filter\<close>).
\<close>

datatype arrayRef = SourceArray | FreshArray

section \<open>The displayed points\<close>

text \<open>
  Modelled from the spec: the data source is not among the sources; \<open>getTripPoints()\<close>
  hands out a reference to the array the data source holds, or null.
\<close>

definition getData :: "TripPointsList \<Rightarrow> arrayRef \<times> TripPointRecord list" where
  "getData s = (case tripPointsData s of None \<Rightarrow> (FreshArray, []) | Some data \<Rightarrow> (SourceArray, data))"

definition filterPoints ::
  "TripPointsList \<Rightarrow> arrayRef \<times> TripPointRecord list \<Rightarrow> arrayRef \<times> TripPointRecord list" where
  "filterPoints s array =
     (case filterFunction s of
        Fn f \<Rightarrow> (FreshArray, filter f (snd array))
      | NotFn _ \<Rightarrow> array)"

text \<open>
  \<open>array.sort\<close> sorts in place: when the array is the one of the data source, the data
  source holds the sorted order afterwards.
\<close>

definition sortPoints ::
  "TripPointsList \<Rightarrow> arrayRef \<times> TripPointRecord list
     \<Rightarrow> (arrayRef \<times> TripPointRecord list) \<times> TripPointsList" where
  "sortPoints s array =
     (case sortFunction s of
        Fn cmp \<Rightarrow>
          (let sorted = arraySort cmp (snd array)
           in ((fst array, sorted),
               (if fst array = SourceArray then s\<lparr>tripPointsData := Some sorted\<rparr> else s)))
      | NotFn _ \<Rightarrow> (array, s))"

definition getDisplayedPoints ::
  "TripPointsList \<Rightarrow> (arrayRef \<times> TripPointRecord list) \<times> TripPointsList" where
  "getDisplayedPoints s = sortPoints s (filterPoints s (getData s))"

section \<open>Views\<close>

text \<open>
  Modelled from the spec: \<open>Component\<close>, \<open>TripPoint\<close> and \<open>TripPointEdit\<close> are not among
  the sources. A view is constructed unrendered; \<open>render()\<close> creates its element and
  returns it; \<open>unrender()\<close> drops the element and can be repeated.
\<close>

definition newTripPoint :: "TripPointRecord \<Rightarrow> TripPointsList \<Rightarrow> nat \<times> TripPointsList" where
  "newTripPoint d s =
     (length (pointViews s), s\<lparr>pointViews := pointViews s @ [\<lparr>tpData = d, tpElement = False\<rparr>]\<rparr>)"

definition renderTripPoint :: "nat \<Rightarrow> TripPointsList \<Rightarrow> item \<times> TripPointsList" where
  "renderTripPoint h s =
     (PointEl h (tpData (pointViews s ! h)),
      s\<lparr>pointViews := (pointViews s)[h := (pointViews s ! h)\<lparr>tpElement := True\<rparr>]\<rparr>)"

definition unrenderTripPoint :: "nat \<Rightarrow> TripPointsList \<Rightarrow> TripPointsList" where
  "unrenderTripPoint h s =
     s\<lparr>pointViews := (pointViews s)[h := (pointViews s ! h)\<lparr>tpElement := False\<rparr>]\<rparr>"

definition newTripPointEdit :: "TripPointRecord \<Rightarrow> TripPointsList \<Rightarrow> nat \<times> TripPointsList" where
  "newTripPointEdit d s =
     (length (editViews s),
      s\<lparr>editViews := editViews s @
          [\<lparr>editData = d, editElement = False, editBlocked = Unblocked,
            editShakes = 0, editUnsaved = False\<rparr>]\<rparr>)"

definition renderTripPointEdit :: "nat \<Rightarrow> TripPointsList \<Rightarrow> item \<times> TripPointsList" where
  "renderTripPointEdit h s =
     (EditEl h (editData (editViews s ! h)),
      s\<lparr>editViews := (editViews s)[h := (editViews s ! h)\<lparr>editElement := True\<rparr>]\<rparr>)"

definition unrenderTripPointEdit :: "nat \<Rightarrow> TripPointsList \<Rightarrow> TripPointsList" where
  "unrenderTripPointEdit h s =
     s\<lparr>editViews := (editViews s)[h := (editViews s ! h)\<lparr>editElement := False\<rparr>]\<rparr>"

section \<open>Rendering\<close>

text \<open>
  The page is taken to hold the template \<open>#trip-day-template\<close> with its \<open>.trip-day\<close>,
  \<open>.trip-day__number\<close>, \<open>.trip-day__title\<close> and \<open>.trip-day__items\<close> nodes, so that cloning a
  day section and appending to its items container succeed.
\<close>

definition createMessage :: "string \<Rightarrow> node" where
  "createMessage text = MessageEl text (text = [])"

definition createTripDayElement :: "int \<Rightarrow> int option \<Rightarrow> tripDay" where
  "createTripDayElement date tripStartDate =
     \<lparr>dayNumber = map_option (\<lambda>start. calcDaysDiff start date + 1) tripStartDate,
      dayTitle = date,
      dayItems = []\<rparr>"

definition addTripPointElementToDayElement :: "nat \<Rightarrow> item \<Rightarrow> tripDay list \<Rightarrow> tripDay list" where
  "addTripPointElementToDayElement dayElement tripPointElement fragment =
     fragment[dayElement :=
       (fragment ! dayElement)\<lparr>dayItems := dayItems (fragment ! dayElement) @ [tripPointElement]\<rparr>]"

text \<open>
  \<open>_createTripPoint\<close>: the view and its \<open>onEdit\<close> closure; the closure is \<open>onEdit\<close> below,
  applied to the handle.
\<close>

definition createTripPoint :: "TripPointRecord \<Rightarrow> TripPointsList \<Rightarrow> nat \<times> TripPointsList" where
  "createTripPoint d s = newTripPoint d s"

definition unrenderContent :: "TripPointsList \<Rightarrow> TripPointsList" where
  "unrenderContent s =
     (let s1 = (case tripPointEdit s of
                  Some e \<Rightarrow> (unrenderTripPointEdit e s)\<lparr>tripPointEdit := None\<rparr>
                | None \<Rightarrow> s);
          s2 = foldl (\<lambda>st tripPoint. unrenderTripPoint tripPoint st) s1 (tripPoints s1)
      in s2\<lparr>element := []\<rparr>)"

text \<open>
  The loop of \<open>update\<close>: \<open>dayElement\<close> is null (\<open>None\<close>) or the index in the fragment of
  the day section created last. Appending to a null \<open>dayElement\<close> is the TypeError of
  \<open>dayElement.querySelector\<close>.
\<close>

fun renderPoints ::
  "TripPointRecord list \<Rightarrow> int option \<Rightarrow> int \<Rightarrow> nat option \<Rightarrow> tripDay list \<Rightarrow> TripPointsList
     \<Rightarrow> error + (tripDay list \<times> TripPointsList)" where
  "renderPoints [] tripStartDate prevTripPointDate dayElement fragment s = Inr (fragment, s)"
| "renderPoints (tripPointData # rest) tripStartDate prevTripPointDate dayElement fragment s =
     (let (dayElement1, fragment1) =
            (if calcDaysDiff prevTripPointDate (dateFrom tripPointData) \<noteq> 0
             then (Some (length fragment),
                   fragment @ [createTripDayElement (dateFrom tripPointData) tripStartDate])
             else (dayElement, fragment));
          (tripPoint, s1) = createTripPoint tripPointData s;
          s2 = s1\<lparr>tripPoints := tripPoints s1 @ [tripPoint]\<rparr>;
          (tripPointElement, s3) = renderTripPoint tripPoint s2
      in case dayElement1 of
           None \<Rightarrow> Inl TypeError
         | Some d \<Rightarrow>
             renderPoints rest tripStartDate (dateFrom tripPointData) dayElement1
               (addTripPointElementToDayElement d tripPointElement fragment1) s3)"

definition update :: "TripPointsList \<Rightarrow> error + TripPointsList" where
  "update s =
     (let s1 = unrenderContent s;
          (displayedTripPoints, s2) = getDisplayedPoints s1;
          s3 = (if message s2 \<noteq> []
                then s2\<lparr>element := element s2 @ [createMessage (message s2)]\<rparr>
                else s2)
      in if snd displayedTripPoints = [] then Inr s3
         else
           (let tripStartDate = getTripStartDate (snd (getData s3))
            in case renderPoints (snd displayedTripPoints) tripStartDate 0 None [] s3 of
                 Inl e \<Rightarrow> Inl e
               | Inr (tripPointsFragment, s4) \<Rightarrow>
                   Inr (s4\<lparr>element := element s4 @ map DayEl tripPointsFragment\<rparr>)))"

definition showErrorMessage :: "TripPointsList \<Rightarrow> error + TripPointsList" where
  "showErrorMessage s =
     update (s\<lparr>message := ''Something went wrong. Check your connection or try again later''\<rparr>)"

definition showLoadingMessage :: "TripPointsList \<Rightarrow> error + TripPointsList" where
  "showLoadingMessage s = update (s\<lparr>message := ''Loading route...''\<rparr>)"

definition hideMessage :: "TripPointsList \<Rightarrow> error + TripPointsList" where
  "hideMessage s = update (s\<lparr>message := []\<rparr>)"

definition setSortFunction ::
  "(TripPointRecord \<Rightarrow> TripPointRecord \<Rightarrow> int) assigned \<Rightarrow> TripPointsList \<Rightarrow> error + TripPointsList" where
  "setSortFunction fn s = update (s\<lparr>sortFunction := fn\<rparr>)"

definition setFilterFunction ::
  "(TripPointRecord \<Rightarrow> bool) assigned \<Rightarrow> TripPointsList \<Rightarrow> error + TripPointsList" where
  "setFilterFunction fn s = update (s\<lparr>filterFunction := fn\<rparr>)"

text \<open>The component after its constructor and \<open>render()\<close>, over a given data source.\<close>

definition newTripPointsList :: "TripPointRecord list option \<Rightarrow> TripPointsList" where
  "newTripPointsList data =
     \<lparr>sortFunction = Fn (\<lambda>point1 point2. compareDate (dateFrom point1) (dateFrom point2)),
      filterFunction = NotFn JSNull,
      tripPointEdit = None,
      tripPoints = [],
      tripPointsData = data,
      message = [],
      element = [],
      pointViews = [],
      editViews = []\<rparr>"

section \<open>Edit sessions\<close>

text \<open>
  \<open>replaceChild(new, old)\<close> on the parent of \<open>old\<close>, seen from the rendered tree: the
  element \<open>old\<close> gives its place in its day section to \<open>new\<close>.
\<close>

definition replaceItem :: "item \<Rightarrow> item \<Rightarrow> node \<Rightarrow> node" where
  "replaceItem new old n =
     (case n of
        MessageEl text hidden \<Rightarrow> MessageEl text hidden
      | DayEl day \<Rightarrow> DayEl (day\<lparr>dayItems := map (\<lambda>i. if i = old then new else i) (dayItems day)\<rparr>))"

definition replaceChild :: "item \<Rightarrow> item \<Rightarrow> node list \<Rightarrow> node list" where
  "replaceChild new old nodes = map (replaceItem new old) nodes"

text \<open>
  The \<open>onCancel\<close> closure of the edit view \<open>tripPointEdit\<close>, created by
  \<open>_createTripPointEdit(data)\<close>. Reading \<open>parentElement\<close> of a null element is a
  TypeError.
\<close>

definition onCancel :: "nat \<Rightarrow> TripPointsList \<Rightarrow> error + TripPointsList" where
  "onCancel tripPointEdit' s =
     (let d = editData (editViews s ! tripPointEdit');
          (tripPoint, s1) = createTripPoint d s
      in if \<not> editElement (editViews s1 ! tripPointEdit') then Inl TypeError
         else
           (let (tripPointElement, s2) = renderTripPoint tripPoint s1;
                s3 = s2\<lparr>element := replaceChild tripPointElement (EditEl tripPointEdit' d) (element s2)\<rparr>;
                s4 = unrenderTripPointEdit tripPointEdit' s3
            in Inr (s4\<lparr>tripPointEdit := None\<rparr>)))"

text \<open>
  Modelled from the spec: \<open>cancelEdit()\<close> of \<open>TripPointEdit\<close> is not among the sources;
  by the spec it takes the session back to viewing, which is what the cancel callback
  does.
\<close>

definition cancelEdit :: "nat \<Rightarrow> TripPointsList \<Rightarrow> error + TripPointsList" where
  "cancelEdit tripPointEdit' s = onCancel tripPointEdit' s"

definition createTripPointEdit :: "TripPointRecord \<Rightarrow> TripPointsList \<Rightarrow> nat \<times> TripPointsList" where
  "createTripPointEdit d s = newTripPointEdit d s"

text \<open>
  The \<open>onEdit\<close> closure of the read-only view \<open>tripPoint\<close>, created by
  \<open>_createTripPoint(data)\<close>.
\<close>

definition onEdit :: "nat \<Rightarrow> TripPointsList \<Rightarrow> error + TripPointsList" where
  "onEdit tripPoint s =
     (case (case tripPointEdit s of Some e \<Rightarrow> cancelEdit e s | None \<Rightarrow> Inr s) of
        Inl err \<Rightarrow> Inl err
      | Inr s1 \<Rightarrow>
          (let d = tpData (pointViews s1 ! tripPoint);
               (edit, s2) = createTripPointEdit d s1;
               s3 = s2\<lparr>tripPointEdit := Some edit\<rparr>
           in if \<not> tpElement (pointViews s3 ! tripPoint) then Inl TypeError
              else
                (let (editElement', s4) = renderTripPointEdit edit s3;
                     s5 = s4\<lparr>element := replaceChild editElement' (PointEl tripPoint d) (element s4)\<rparr>;
                     s6 = s5\<lparr>tripPoints := splice1 (indexOf (tripPoints s5) tripPoint) (tripPoints s5)\<rparr>
                 in Inr (unrenderTripPoint tripPoint s6))))"

text \<open>
  \<open>openTripPointInEditMode({id})\<close>: the body of the \<open>if (tripPoint)\<close> branch is, line
  for line, the body of the \<open>onEdit\<close> closure with \<open>tripPoint.data\<close> as data; the
  \<open>scrollIntoView\<close> that follows is wrapped in a \<open>try\<close> whose \<open>catch\<close> is empty.
\<close>

definition openTripPointInEditMode :: "nat \<Rightarrow> TripPointsList \<Rightarrow> error + TripPointsList" where
  "openTripPointInEditMode i s =
     (case find (\<lambda>point. pointId (tpData (pointViews s ! point)) = i) (tripPoints s) of
        None \<Rightarrow> Inr s
      | Some tripPoint \<Rightarrow> onEdit tripPoint s)"

text \<open>
  Modelled from the spec: the methods of \<open>TripPointEdit\<close> that the callbacks call.
  \<open>savingBlock\<close> and \<open>deletingBlock\<close> disable the form, \<open>unblock\<close> enables it again,
  \<open>shake\<close> plays the shake animation once more, \<open>changesUnsaved\<close> sets the marker of
  unsaved changes.
\<close>

definition onEditView :: "nat \<Rightarrow> (TripPointEdit \<Rightarrow> TripPointEdit) \<Rightarrow> TripPointsList \<Rightarrow> TripPointsList" where
  "onEditView h f s = s\<lparr>editViews := (editViews s)[h := f (editViews s ! h)]\<rparr>"

definition savingBlock :: "TripPointEdit \<Rightarrow> TripPointEdit" where
  "savingBlock v = v\<lparr>editBlocked := SavingBlock\<rparr>"

definition deletingBlock :: "TripPointEdit \<Rightarrow> TripPointEdit" where
  "deletingBlock v = v\<lparr>editBlocked := DeletingBlock\<rparr>"

definition unblock :: "TripPointEdit \<Rightarrow> TripPointEdit" where
  "unblock v = v\<lparr>editBlocked := Unblocked\<rparr>"

definition shake :: "TripPointEdit \<Rightarrow> TripPointEdit" where
  "shake v = v\<lparr>editShakes := Suc (editShakes v)\<rparr>"

definition changesUnsaved :: "TripPointEdit \<Rightarrow> TripPointEdit" where
  "changesUnsaved v = v\<lparr>editUnsaved := True\<rparr>"

text \<open>
  The \<open>onSubmit\<close> and \<open>onDelete\<close> closures of an edit view block it and send the request;
  the handler passed to \<open>catch\<close> runs when the request is rejected. Nothing runs in this
  component when the request succeeds.
\<close>

definition onSubmit :: "nat \<Rightarrow> TripPointRecord \<Rightarrow> TripPointsList \<Rightarrow> TripPointsList" where
  "onSubmit tripPointEdit' newData s = onEditView tripPointEdit' savingBlock s"

definition onSubmitCatch :: "nat \<Rightarrow> TripPointsList \<Rightarrow> TripPointsList" where
  "onSubmitCatch tripPointEdit' s =
     onEditView tripPointEdit' unblock
       (onEditView tripPointEdit' changesUnsaved
         (onEditView tripPointEdit' shake s))"

definition onDelete :: "nat \<Rightarrow> TripPointsList \<Rightarrow> TripPointsList" where
  "onDelete tripPointEdit' s = onEditView tripPointEdit' deletingBlock s"

definition onDeleteCatch :: "nat \<Rightarrow> TripPointsList \<Rightarrow> TripPointsList" where
  "onDeleteCatch tripPointEdit' s =
     onEditView tripPointEdit' unblock
       (onEditView tripPointEdit' changesUnsaved s)"

text \<open>
  What can happen to a rendered component: a call of its interface, a callback of one of
  its views, the outcome of a request, or the data source changing its array.
\<close>

datatype event =
    Update
  | SetSortFunction "(TripPointRecord \<Rightarrow> TripPointRecord \<Rightarrow> int) assigned"
  | SetFilterFunction "(TripPointRecord \<Rightarrow> bool) assigned"
  | ShowErrorMessage
  | ShowLoadingMessage
  | HideMessage
  | OpenTripPointInEditMode nat
  | EditRequest nat
  | CancelRequest nat
  | SubmitRequest nat TripPointRecord
  | DeleteRequest nat
  | UpdateRejected nat
  | DeleteRejected nat
  | DataChanged "TripPointRecord list option"

fun step :: "event \<Rightarrow> TripPointsList \<Rightarrow> error + TripPointsList" where
  "step Update s = update s"
| "step (SetSortFunction fn) s = setSortFunction fn s"
| "step (SetFilterFunction fn) s = setFilterFunction fn s"
| "step ShowErrorMessage s = showErrorMessage s"
| "step ShowLoadingMessage s = showLoadingMessage s"
| "step HideMessage s = hideMessage s"
| "step (OpenTripPointInEditMode i) s = openTripPointInEditMode i s"
| "step (EditRequest tripPoint) s = onEdit tripPoint s"
| "step (CancelRequest e) s = onCancel e s"
| "step (SubmitRequest e newData) s = Inr (onSubmit e newData s)"
| "step (DeleteRequest e) s = Inr (onDelete e s)"
| "step (UpdateRejected e) s = Inr (onSubmitCatch e s)"
| "step (DeleteRejected e) s = Inr (onDeleteCatch e s)"
| "step (DataChanged data) s = Inr (s\<lparr>tripPointsData := data\<rparr>)"

fun run :: "event list \<Rightarrow> TripPointsList \<Rightarrow> error + TripPointsList" where
  "run [] s = Inr s"
| "run (ev # evs) s = (case step ev s of Inl err \<Rightarrow> Inl err | Inr s1 \<Rightarrow> run evs s1)"

section \<open>Example data\<close>

definition examplePoint :: "nat \<Rightarrow> int \<Rightarrow> TripPointRecord" where
  "examplePoint i day = \<lparr>pointId = i, dateFrom = day * msPerDay, dateTo = day * msPerDay + 1\<rparr>"

definition exampleList :: TripPointsList where
  "exampleList =
     newTripPointsList (Some [examplePoint 1 10, examplePoint 2 10, examplePoint 3 11])"

definition exampleRendered :: TripPointsList where
  "exampleRendered = (case update exampleList of Inr s \<Rightarrow> s | Inl _ \<Rightarrow> exampleList)"

definition exampleNonFunctions :: TripPointsList where
  "exampleNonFunctions =
     exampleList\<lparr>sortFunction := NotFn (JSNumber 3), filterFunction := NotFn (JSString ''all'')\<rparr>"

text \<open>
  A comparator as \<open>Array.prototype.sort\<close> expects it: the signs of \<open>cmp a b\<close> and
  \<open>cmp b a\<close> are opposite, and the order it describes is transitive.
\<close>

definition consistentComparator :: "('a \<Rightarrow> 'a \<Rightarrow> int) \<Rightarrow> bool" where
  "consistentComparator cmp \<longleftrightarrow>
     (\<forall>a b. (cmp a b < 0) = (0 < cmp b a)) \<and>
     (\<forall>a b c. cmp a b \<le> 0 \<and> cmp b c \<le> 0 \<longrightarrow> cmp a c \<le> 0)"

definition exampleUnsorted :: TripPointsList where
  "exampleUnsorted =
     newTripPointsList (Some [examplePoint 3 11, examplePoint 1 10, examplePoint 2 10])"

section \<open>Reading the rendered tree\<close>

fun itemData :: "item \<Rightarrow> TripPointRecord" where
  "itemData (PointEl h d) = d"
| "itemData (EditEl h d) = d"

fun daySections :: "node list \<Rightarrow> tripDay list" where
  "daySections [] = []"
| "daySections (MessageEl text hidden # nodes) = daySections nodes"
| "daySections (DayEl day # nodes) = day # daySections nodes"

fun messageNodes :: "node list \<Rightarrow> string list" where
  "messageNodes [] = []"
| "messageNodes (MessageEl text hidden # nodes) = text # messageNodes nodes"
| "messageNodes (DayEl day # nodes) = messageNodes nodes"

text \<open>
  The rendered tree as the page shows it: which view object rendered an element cannot be
  seen, so the handles are blanked.
\<close>

fun withoutHandle :: "item \<Rightarrow> item" where
  "withoutHandle (PointEl h d) = PointEl 0 d"
| "withoutHandle (EditEl h d) = EditEl 0 d"

definition shownDay :: "tripDay \<Rightarrow> tripDay" where
  "shownDay day = day\<lparr>dayItems := map withoutHandle (dayItems day)\<rparr>"

fun shownNode :: "node \<Rightarrow> node" where
  "shownNode (MessageEl text hidden) = MessageEl text hidden"
| "shownNode (DayEl day) = DayEl (shownDay day)"

definition renderedTree :: "TripPointsList \<Rightarrow> node list" where
  "renderedTree s = map shownNode (element s)"

section \<open>The day sections of the spec\<close>

text \<open>
  The day sections as the spec words them: walking the displayed records in order, a
  section starts at the first record and whenever a record's day difference from the trip
  start date differs from the previous record's; every record goes into the section that
  is current.
\<close>

fun specDaySections :: "('a \<Rightarrow> int) \<Rightarrow> 'a list \<Rightarrow> 'a list list" where
  "specDaySections key [] = []"
| "specDaySections key [x] = [[x]]"
| "specDaySections key (x # y # ys) =
     (if key y \<noteq> key x then [x] # specDaySections key (y # ys)
      else (case specDaySections key (y # ys) of
              [] \<Rightarrow> [[x]]
            | g # gs \<Rightarrow> (x # g) # gs))"

text \<open>
  A day section that has items, is titled with the date of its first item and is numbered
  by that date's day difference from the given start date, plus one.
\<close>

definition numberedFrom :: "int option \<Rightarrow> tripDay \<Rightarrow> bool" where
  "numberedFrom start day \<longleftrightarrow>
     dayItems day \<noteq> [] \<and>
     dayTitle day = dateFrom (itemData (hd (dayItems day))) \<and>
     dayNumber day = map_option (\<lambda>st. calcDaysDiff st (dayTitle day) + 1) start"

text \<open>The records in the array that \<open>getDisplayedPoints()\<close> returns.\<close>

definition displayedPoints :: "TripPointsList \<Rightarrow> TripPointRecord list" where
  "displayedPoints s = snd (fst (getDisplayedPoints s))"

text \<open>
  The state in which the loop of \<open>update\<close> starts, and the trip start date it is given.
\<close>

definition beforeLoop :: "TripPointsList \<Rightarrow> TripPointsList" where
  "beforeLoop s =
     (snd (getDisplayedPoints (unrenderContent s)))
       \<lparr>element := (if message s \<noteq> [] then [createMessage (message s)] else [])\<rparr>"

definition startDate :: "TripPointsList \<Rightarrow> int option" where
  "startDate s = getTripStartDate (snd (getData (snd (getDisplayedPoints s))))"

definition exampleInterleaved :: TripPointsList where
  "exampleInterleaved =
     (newTripPointsList (Some [examplePoint 1 10, examplePoint 2 11, examplePoint 3 10]))
       \<lparr>sortFunction := Fn (\<lambda>point1 point2. int (pointId point1) - int (pointId point2))\<rparr>"

definition exampleFiltered :: TripPointsList where
  "exampleFiltered =
     (newTripPointsList (Some [examplePoint 1 10, examplePoint 2 12, examplePoint 3 13]))
       \<lparr>filterFunction := Fn (\<lambda>point. 12 * msPerDay \<le> dateFrom point)\<rparr>"

definition exampleFilteredRendered :: TripPointsList where
  "exampleFilteredRendered =
     (case update exampleFiltered of Inr s \<Rightarrow> s | Inl _ \<Rightarrow> exampleFiltered)"

section \<open>Reachable states\<close>

text \<open>
  An edit view is open (rendered) exactly when it is the one the component holds as its
  edit session, and the session is a view that exists.
\<close>

definition oneEditSession :: "TripPointsList \<Rightarrow> bool" where
  "oneEditSession s \<longleftrightarrow>
     (case tripPointEdit s of None \<Rightarrow> True | Some e \<Rightarrow> e < length (editViews s)) \<and>
     list_all (\<lambda>h. editElement (editViews s ! h) = (tripPointEdit s = Some h))
       [0..<length (editViews s)]"

text \<open>A callback comes from a view object that has been created.\<close>

fun possible :: "event \<Rightarrow> TripPointsList \<Rightarrow> bool" where
  "possible (EditRequest tripPoint) s = (tripPoint < length (pointViews s))"
| "possible (CancelRequest e) s = (e < length (editViews s))"
| "possible (SubmitRequest e newData) s = (e < length (editViews s))"
| "possible (DeleteRequest e) s = (e < length (editViews s))"
| "possible (UpdateRejected e) s = (e < length (editViews s))"
| "possible (DeleteRejected e) s = (e < length (editViews s))"
| "possible ev s = True"

text \<open>
  The states of a component that was constructed over some data source, rendered, and
  then went through events that returned normally.
\<close>

inductive reachable :: "TripPointsList \<Rightarrow> bool" where
  constructed: "reachable (newTripPointsList data)"
| after: "reachable s \<Longrightarrow> possible ev s \<Longrightarrow> step ev s = Inr s' \<Longrightarrow> reachable s'"

definition exampleEditingFirst :: TripPointsList where
  "exampleEditingFirst =
     (case run [Update, EditRequest 0] exampleList of Inr s \<Rightarrow> s | Inl _ \<Rightarrow> exampleList)"

definition exampleEditingSecond :: TripPointsList where
  "exampleEditingSecond =
     (case onEdit 1 exampleEditingFirst of Inr s \<Rightarrow> s | Inl _ \<Rightarrow> exampleList)"

section \<open>Basic facts\<close>

lemma unrenderAll_fields [simp]:
  "sortFunction (foldl (\<lambda>st h. unrenderTripPoint h st) s hs) = sortFunction s"
  "filterFunction (foldl (\<lambda>st h. unrenderTripPoint h st) s hs) = filterFunction s"
  "tripPointEdit (foldl (\<lambda>st h. unrenderTripPoint h st) s hs) = tripPointEdit s"
  "tripPoints (foldl (\<lambda>st h. unrenderTripPoint h st) s hs) = tripPoints s"
  "tripPointsData (foldl (\<lambda>st h. unrenderTripPoint h st) s hs) = tripPointsData s"
  "message (foldl (\<lambda>st h. unrenderTripPoint h st) s hs) = message s"
  "element (foldl (\<lambda>st h. unrenderTripPoint h st) s hs) = element s"
  "editViews (foldl (\<lambda>st h. unrenderTripPoint h st) s hs) = editViews s"
  by (induction hs arbitrary: s; simp add: unrenderTripPoint_def)+

lemma unrenderContent_fields [simp]:
  "sortFunction (unrenderContent s) = sortFunction s"
  "filterFunction (unrenderContent s) = filterFunction s"
  "tripPointEdit (unrenderContent s) = None"
  "tripPoints (unrenderContent s) = tripPoints s"
  "tripPointsData (unrenderContent s) = tripPointsData s"
  "message (unrenderContent s) = message s"
  "element (unrenderContent s) = []"
  by (simp_all add: unrenderContent_def Let_def unrenderTripPointEdit_def split: option.splits)

lemma arraySort_Nil [simp]: "arraySort cmp [] = []"
  by (simp add: arraySort_def)

lemma getDisplayedPoints_null:
  "tripPointsData s = None \<Longrightarrow> getDisplayedPoints s = ((FreshArray, []), s)"
  by (simp add: getDisplayedPoints_def getData_def filterPoints_def sortPoints_def
      split: assigned.splits)

lemmas example_simps =
  exampleList_def newTripPointsList_def update_def unrenderContent_def getDisplayedPoints_def
  getData_def filterPoints_def sortPoints_def arraySort_def compareDate_def examplePoint_def
  msPerDay_def getTripStartDate_def calcDaysDiff_def calendarDay_def createTripPoint_def
  newTripPoint_def renderTripPoint_def createTripDayElement_def
  addTripPointElementToDayElement_def Let_def

lemma update_exampleList:
  "update exampleList = Inr (exampleList\<lparr>
      tripPoints := [0, 1, 2],
      element := [DayEl \<lparr>dayNumber = Some 1, dayTitle = 10 * msPerDay,
                         dayItems = [PointEl 0 (examplePoint 1 10), PointEl 1 (examplePoint 2 10)]\<rparr>,
                  DayEl \<lparr>dayNumber = Some 2, dayTitle = 11 * msPerDay,
                         dayItems = [PointEl 2 (examplePoint 3 11)]\<rparr>],
      pointViews := [\<lparr>tpData = examplePoint 1 10, tpElement = True\<rparr>,
                     \<lparr>tpData = examplePoint 2 10, tpElement = True\<rparr>,
                     \<lparr>tpData = examplePoint 3 11, tpElement = True\<rparr>]\<rparr>)"
  by (simp add: example_simps)

section \<open>A data source that returns null\<close>

text \<open>
  C8. When \<open>getTripPoints()\<close> returns null, \<open>getDisplayedPoints()\<close> returns an empty
  array, and \<open>update()\<close> returns normally with no day section among the children of the
  container.
\<close>

theorem null_data_is_empty:
  "tripPointsData s = None \<Longrightarrow>
     snd (fst (getDisplayedPoints s)) = [] \<and>
     (\<exists>s'. update s = Inr s' \<and> (\<forall>day. DayEl day \<notin> set (element s')))"
  by (simp add: update_def Let_def getDisplayedPoints_null createMessage_def)

theorem null_data_is_empty_witness:
  "tripPointsData (newTripPointsList None) = None \<and>
   snd (fst (getDisplayedPoints (newTripPointsList None))) = [] \<and>
   (\<exists>s'. update (newTripPointsList None) = Inr s' \<and> (\<forall>day. DayEl day \<notin> set (element s')))"
  using null_data_is_empty [of "newTripPointsList None"]
  by (simp add: newTripPointsList_def)

section \<open>Values that are not functions\<close>

text \<open>
  C10. A \<open>filterFunction\<close> that is not a function leaves the array as it is, a
  \<open>sortFunction\<close> that is not a function leaves the array and the state as they are, and
  with both \<open>getDisplayedPoints()\<close> returns the array of \<open>_getData()\<close>: no value that is
  not a function is ever called.
\<close>

theorem getDisplayedPoints_non_function:
  "(filterFunction s = NotFn v \<longrightarrow> filterPoints s array = array) \<and>
   (sortFunction s = NotFn w \<longrightarrow> sortPoints s array = (array, s)) \<and>
   (filterFunction s = NotFn v \<and> sortFunction s = NotFn w \<longrightarrow>
      getDisplayedPoints s = (getData s, s))"
  by (simp add: getDisplayedPoints_def filterPoints_def sortPoints_def)

theorem getDisplayedPoints_non_function_witness:
  "filterFunction exampleNonFunctions = NotFn (JSString ''all'') \<and>
   sortFunction exampleNonFunctions = NotFn (JSNumber 3) \<and>
   getDisplayedPoints exampleNonFunctions =
     ((SourceArray, [examplePoint 1 10, examplePoint 2 10, examplePoint 3 11]), exampleNonFunctions)"
  using getDisplayedPoints_non_function
    [of exampleNonFunctions "JSString ''all''" "getData exampleNonFunctions" "JSNumber 3"]
  by (simp add: exampleNonFunctions_def exampleList_def newTripPointsList_def getData_def)

section \<open>Opening a point that is not rendered\<close>

text \<open>
  C9. When no tracked read-only view has data with the given id,
  \<open>openTripPointInEditMode\<close> returns with the component unchanged: the edit session, the
  tracked views and the rendered tree are those of before.
\<close>

theorem openTripPointInEditMode_unknown_id:
  "\<forall>point \<in> set (tripPoints s). pointId (tpData (pointViews s ! point)) \<noteq> i \<Longrightarrow>
     openTripPointInEditMode i s = Inr s"
  by (simp add: openTripPointInEditMode_def find_None_iff[THEN iffD2])

theorem openTripPointInEditMode_unknown_id_witness:
  "map (\<lambda>point. pointId (tpData (pointViews exampleRendered ! point))) (tripPoints exampleRendered)
     = [1, 2, 3] \<and>
   openTripPointInEditMode 7 exampleRendered = Inr exampleRendered"
  using openTripPointInEditMode_unknown_id [of exampleRendered 7]
  by (simp add: exampleRendered_def update_exampleList examplePoint_def)

section \<open>Sorting\<close>

lemma set_insertBy [simp]: "set (insertBy cmp x ys) = insert x (set ys)"
  by (induction ys) auto

lemma mset_insertBy [simp]: "mset (insertBy cmp x ys) = add_mset x (mset ys)"
  by (induction ys) auto

lemma mset_arraySort [simp]: "mset (arraySort cmp xs) = mset xs"
  by (induction xs) (simp_all add: arraySort_def)

lemma set_arraySort [simp]: "set (arraySort cmp xs) = set xs"
  by (induction xs) (simp_all add: arraySort_def)

lemma sorted_insertBy:
  assumes "consistentComparator cmp" and "sorted_wrt (\<lambda>a b. cmp a b \<le> 0) ys"
  shows "sorted_wrt (\<lambda>a b. cmp a b \<le> 0) (insertBy cmp x ys)"
  using assms(2)
proof (induction ys)
  case Nil
  then show ?case by simp
next
  case (Cons y ys)
  have trans: "\<And>a b c. cmp a b \<le> 0 \<Longrightarrow> cmp b c \<le> 0 \<Longrightarrow> cmp a c \<le> 0"
    using assms(1) unfolding consistentComparator_def by blast
  have total: "\<And>a b. \<not> cmp a b \<le> 0 \<Longrightarrow> cmp b a \<le> 0"
    using assms(1) unfolding consistentComparator_def by (metis not_le order_less_imp_le)
  show ?case
  proof (cases "cmp x y \<le> 0")
    case True
    then show ?thesis using Cons.prems trans by auto
  next
    case False
    then show ?thesis using Cons total by auto
  qed
qed

lemma sorted_arraySort:
  "consistentComparator cmp \<Longrightarrow> sorted_wrt (\<lambda>a b. cmp a b \<le> 0) (arraySort cmp xs)"
  by (induction xs) (simp_all add: arraySort_def sorted_insertBy)

lemma insertBy_sorted_id:
  "sorted_wrt (\<lambda>a b. cmp a b \<le> 0) (x # ys) \<Longrightarrow> insertBy cmp x ys = x # ys"
  by (cases ys) auto

lemma arraySort_sorted_id:
  "sorted_wrt (\<lambda>a b. cmp a b \<le> 0) xs \<Longrightarrow> arraySort cmp xs = xs"
proof (induction xs)
  case Nil
  then show ?case by simp
next
  case (Cons x xs)
  then have "arraySort cmp xs = xs" by simp
  then show ?case using Cons.prems insertBy_sorted_id[of cmp x xs] by (simp add: arraySort_def)
qed

lemma arraySort_idem:
  "consistentComparator cmp \<Longrightarrow> arraySort cmp (arraySort cmp xs) = arraySort cmp xs"
  by (simp add: arraySort_sorted_id sorted_arraySort)

lemma consistent_compareDate:
  "consistentComparator (\<lambda>point1 point2. compareDate (dateFrom point1) (dateFrom point2))"
  by (auto simp: consistentComparator_def compareDate_def)

text \<open>
  C4. With a filter that is not a function (null in particular) and a data source that
  returns an array, \<open>getDisplayedPoints()\<close> returns the array object of the data source
  itself, holding the same records as before; they are in the order of the comparator when
  the sort function is a consistent comparator, and in the order of the source when no
  sort function is set. The sort happened in place: the data source holds the returned
  order afterwards, and nothing else of the component changed.
\<close>

theorem getDisplayedPoints_null_filter:
  assumes "filterFunction s = NotFn v" and "tripPointsData s = Some data"
  shows "\<exists>displayed.
           getDisplayedPoints s = ((SourceArray, displayed), s\<lparr>tripPointsData := Some displayed\<rparr>) \<and>
           mset displayed = mset data \<and>
           (case sortFunction s of
              Fn cmp \<Rightarrow> consistentComparator cmp \<longrightarrow> sorted_wrt (\<lambda>a b. cmp a b \<le> 0) displayed
            | NotFn _ \<Rightarrow> displayed = data)"
  using assms
  by (cases "sortFunction s")
     (simp_all add: getDisplayedPoints_def getData_def filterPoints_def sortPoints_def
        sorted_arraySort Let_def)

theorem getDisplayedPoints_null_filter_witness:
  "filterFunction exampleUnsorted = NotFn JSNull \<and>
   tripPointsData exampleUnsorted = Some [examplePoint 3 11, examplePoint 1 10, examplePoint 2 10] \<and>
   consistentComparator (\<lambda>point1 point2. compareDate (dateFrom point1) (dateFrom point2)) \<and>
   getDisplayedPoints exampleUnsorted =
     ((SourceArray, [examplePoint 1 10, examplePoint 2 10, examplePoint 3 11]),
      exampleUnsorted\<lparr>tripPointsData := Some [examplePoint 1 10, examplePoint 2 10, examplePoint 3 11]\<rparr>) \<and>
   sorted_wrt (\<lambda>a b. compareDate (dateFrom a) (dateFrom b) \<le> 0)
     [examplePoint 1 10, examplePoint 2 10, examplePoint 3 11]"
  using getDisplayedPoints_null_filter [of exampleUnsorted JSNull
      "[examplePoint 3 11, examplePoint 1 10, examplePoint 2 10]"]
    consistent_compareDate
  by (simp add: exampleUnsorted_def newTripPointsList_def getDisplayedPoints_def getData_def
      filterPoints_def sortPoints_def arraySort_def compareDate_def examplePoint_def msPerDay_def
      Let_def)

section \<open>Evaluating edit sessions\<close>

lemmas edit_simps =
  onEdit_def onCancel_def cancelEdit_def createTripPointEdit_def newTripPointEdit_def
  renderTripPointEdit_def unrenderTripPointEdit_def unrenderTripPoint_def replaceChild_def
  replaceItem_def splice1_def openTripPointInEditMode_def onEditView_def savingBlock_def
  deletingBlock_def unblock_def shake_def changesUnsaved_def onSubmit_def onSubmitCatch_def
  onDelete_def onDeleteCatch_def

section \<open>Rejected requests\<close>

text \<open>
  C5. The edit view of the first point is open. After a delete request that is rejected
  the view is still rendered, marked unsaved and unblocked, but it has not been shaken;
  after a submit request that is rejected it is rendered, marked unsaved, unblocked and
  shaken once.
\<close>

theorem delete_failure_does_not_shake:
  "map_sum id editViews (run [Update, EditRequest 0, DeleteRequest 0, DeleteRejected 0] exampleList) =
     Inr [\<lparr>editData = examplePoint 1 10, editElement = True, editBlocked = Unblocked,
           editShakes = 0, editUnsaved = True\<rparr>] \<and>
   map_sum id editViews
     (run [Update, EditRequest 0, SubmitRequest 0 (examplePoint 1 12), UpdateRejected 0] exampleList) =
     Inr [\<lparr>editData = examplePoint 1 10, editElement = True, editBlocked = Unblocked,
           editShakes = 1, editUnsaved = True\<rparr>]"
  apply (simp only: run.simps step.simps update_exampleList sum.case)
  apply (simp add: edit_simps exampleList_def newTripPointsList_def Let_def)
  done

section \<open>Repeated updates\<close>

text \<open>
  C3. Over three records, the first \<open>update()\<close> tracks three read-only views and the
  second tracks six: the views of the first call are unrendered but stay in the tracked
  list. \<open>openTripPointInEditMode\<close> then finds the unrendered view of the record first
  and faults on its null element.
\<close>

theorem update_accumulates_views:
  "map_sum id tripPoints (run [Update] exampleList) = Inr [0, 1, 2] \<and>
   map_sum id tripPoints (run [Update, Update] exampleList) = Inr [0, 1, 2, 3, 4, 5] \<and>
   run [Update, Update, OpenTripPointInEditMode 1] exampleList = Inl TypeError"
  by (simp add: example_simps edit_simps)

section \<open>The day sections of the spec: basic facts\<close>

lemma specDaySections_Cons:
  "\<exists>g gs. specDaySections key (x # xs) = (x # g) # gs"
  by (induction xs arbitrary: x) (auto split: list.splits)

lemma specDaySections_append_same:
  assumes "g \<noteq> []" and "\<forall>x \<in> set g. key x = k" 
  shows "specDaySections key (g @ p # ps) =
           (if key p = k
            then (case specDaySections key (p # ps) of [] \<Rightarrow> [] | h # hs \<Rightarrow> (g @ h) # hs)
            else g # specDaySections key (p # ps))"
  using assms
proof (induction g)
  case Nil
  then show ?case by simp
next
  case (Cons a g)
  show ?case
  proof (cases g)
    case Nil
    then show ?thesis using Cons.prems specDaySections_Cons[of key p ps]
      by (auto split: list.splits)
  next
    case (Cons b g')
    then show ?thesis using Cons.IH Cons.prems
      using specDaySections_Cons[of key p ps] by (auto split: list.splits)
  qed
qed

lemma specDaySections_single_run:
  assumes "g \<noteq> []" and "\<forall>x \<in> set g. key x = k"
  shows "specDaySections key g = [g]"
  using assms
proof (induction g)
  case Nil
  then show ?case by simp
next
  case (Cons a g)
  then show ?case by (cases g) auto
qed

section \<open>The loop of update\<close>

lemma renderPoints_Cons:
  "renderPoints (p # ps) start prev d frag s =
     (let el = PointEl (length (pointViews s)) p;
          s3 = s\<lparr>tripPoints := tripPoints s @ [length (pointViews s)],
                 pointViews := pointViews s @ [\<lparr>tpData = p, tpElement = True\<rparr>]\<rparr>
      in if calendarDay (dateFrom p) \<noteq> calendarDay prev
         then renderPoints ps start (dateFrom p) (Some (length frag))
                (frag @ [(createTripDayElement (dateFrom p) start)\<lparr>dayItems := [el]\<rparr>]) s3
         else (case d of
                 None \<Rightarrow> Inl TypeError
               | Some i \<Rightarrow>
                   renderPoints ps start (dateFrom p) d
                     (addTripPointElementToDayElement i el frag) s3))"
  by (simp add: Let_def calcDaysDiff_def createTripPoint_def newTripPoint_def renderTripPoint_def
      addTripPointElementToDayElement_def createTripDayElement_def split: option.splits)

lemma addTripPointElementToDayElement_last:
  "addTripPointElementToDayElement (length F) el (F @ [day]) =
     F @ [day\<lparr>dayItems := dayItems day @ [el]\<rparr>]"
  by (simp add: addTripPointElementToDayElement_def)

lemma renderPoints_from_day:
  assumes "dayItems day \<noteq> []"
    and "\<forall>x \<in> set (dayItems day). calendarDay (dateFrom (itemData x)) = calendarDay prev"
  shows "\<exists>G s'. renderPoints ps start prev (Some (length F)) (F @ [day]) s = Inr (F @ G, s') \<and>
           map (\<lambda>d. map itemData (dayItems d)) G =
             specDaySections (\<lambda>p. calcDaysDiff st (dateFrom p)) (map itemData (dayItems day) @ ps)"
  using assms
proof (induction ps arbitrary: F day prev s)
  case Nil
  have "specDaySections (\<lambda>p. calcDaysDiff st (dateFrom p)) (map itemData (dayItems day)) =
          [map itemData (dayItems day)]"
    using Nil specDaySections_single_run[of "map itemData (dayItems day)"
        "\<lambda>p. calcDaysDiff st (dateFrom p)" "calcDaysDiff st prev"]
    by (auto simp: calcDaysDiff_def)
  then show ?case by simp
next
  case (Cons p ps)
  let ?n = "length (pointViews s)"
  let ?el = "PointEl ?n p"
  let ?s3 = "s\<lparr>tripPoints := tripPoints s @ [?n],
                 pointViews := pointViews s @ [\<lparr>tpData = p, tpElement = True\<rparr>]\<rparr>"
  let ?key = "\<lambda>p. calcDaysDiff st (dateFrom p)"
  show ?case
  proof (cases "calendarDay (dateFrom p) = calendarDay prev")
    case True
    let ?day = "day\<lparr>dayItems := dayItems day @ [?el]\<rparr>"
    have "\<exists>G s'. renderPoints ps start (dateFrom p) (Some (length F)) (F @ [?day]) ?s3 = Inr (F @ G, s') \<and>
           map (\<lambda>d. map itemData (dayItems d)) G =
             specDaySections ?key (map itemData (dayItems ?day) @ ps)"
      by (rule Cons.IH) (use Cons.prems True in auto)
    then show ?thesis
      using True
      by (simp add: renderPoints_Cons Let_def addTripPointElementToDayElement_last
          del: renderPoints.simps)
  next
    case False
    let ?new = "(createTripDayElement (dateFrom p) start)\<lparr>dayItems := [?el]\<rparr>"
    have "\<exists>G s'. renderPoints ps start (dateFrom p) (Some (length (F @ [day]))) ((F @ [day]) @ [?new]) ?s3
              = Inr ((F @ [day]) @ G, s') \<and>
           map (\<lambda>d. map itemData (dayItems d)) G =
             specDaySections ?key (map itemData (dayItems ?new) @ ps)"
      by (rule Cons.IH) auto
    then obtain G s' where G:
      "renderPoints ps start (dateFrom p) (Some (Suc (length F))) (F @ [day, ?new]) ?s3
         = Inr (F @ day # G, s')"
      "map (\<lambda>d. map itemData (dayItems d)) G = specDaySections ?key (p # ps)"
      by auto
    have "specDaySections ?key (map itemData (dayItems day) @ p # ps) =
            map itemData (dayItems day) # specDaySections ?key (p # ps)"
      using specDaySections_append_same[of "map itemData (dayItems day)" ?key "calcDaysDiff st prev" p ps]
        Cons.prems False
      by (auto simp: calcDaysDiff_def)
    then show ?thesis
      using False G
      by (simp add: renderPoints_Cons Let_def del: renderPoints.simps)
  qed
qed

lemma renderPoints_fields:
  assumes "renderPoints ps start prev d frag s = Inr (frag', s')"
  shows "sortFunction s' = sortFunction s \<and> filterFunction s' = filterFunction s \<and>
         tripPointEdit s' = tripPointEdit s \<and> tripPointsData s' = tripPointsData s \<and>
         message s' = message s \<and> element s' = element s \<and> editViews s' = editViews s"
  using assms
proof (induction ps arbitrary: prev d frag s)
  case Nil
  then show ?case by simp
next
  case (Cons p ps)
  let ?el = "PointEl (length (pointViews s)) p"
  let ?s3 = "s\<lparr>tripPoints := tripPoints s @ [length (pointViews s)],
                 pointViews := pointViews s @ [\<lparr>tpData = p, tpElement = True\<rparr>]\<rparr>"
  have "\<exists>d' frag0. renderPoints ps start (dateFrom p) d' frag0 ?s3 = Inr (frag', s')"
  proof (cases "calendarDay (dateFrom p) = calendarDay prev")
    case True
    show ?thesis
    proof (cases d)
      case None
      with True Cons.prems show ?thesis
        by (simp add: renderPoints_Cons Let_def del: renderPoints.simps)
    next
      case (Some i)
      with True Cons.prems have
        "renderPoints ps start (dateFrom p) d (addTripPointElementToDayElement i ?el frag) ?s3
           = Inr (frag', s')"
        by (simp add: renderPoints_Cons Let_def del: renderPoints.simps)
      then show ?thesis by blast
    qed
  next
    case False
    with Cons.prems have
      "renderPoints ps start (dateFrom p) (Some (length frag))
         (frag @ [(createTripDayElement (dateFrom p) start)\<lparr>dayItems := [?el]\<rparr>]) ?s3
         = Inr (frag', s')"
      by (simp add: renderPoints_Cons Let_def del: renderPoints.simps)
    then show ?thesis by blast
  qed
  then obtain d' frag0 where
    "renderPoints ps start (dateFrom p) d' frag0 ?s3 = Inr (frag', s')" by blast
  from Cons.IH[OF this] show ?case by simp
qed

lemma addTripPointElementToDayElement_numbered:
  assumes "\<forall>day \<in> set frag. numberedFrom start day"
  shows "\<forall>day \<in> set (addTripPointElementToDayElement i el frag). numberedFrom start day"
proof (cases "i < length frag")
  case True
  then have "numberedFrom start (frag ! i)" using assms by simp
  then have "numberedFrom start ((frag ! i)\<lparr>dayItems := dayItems (frag ! i) @ [el]\<rparr>)"
    by (simp add: numberedFrom_def)
  then show ?thesis
    using assms set_update_subset_insert[of frag i]
    unfolding addTripPointElementToDayElement_def by blast
next
  case False
  then have "frag[i := (frag ! i)\<lparr>dayItems := dayItems (frag ! i) @ [el]\<rparr>] = frag"
    by (simp add: list_update_beyond)
  then show ?thesis using assms by (simp add: addTripPointElementToDayElement_def)
qed

lemma renderPoints_numbered:
  assumes "renderPoints ps start prev d frag s = Inr (frag', s')"
    and "\<forall>day \<in> set frag. numberedFrom start day"
  shows "\<forall>day \<in> set frag'. numberedFrom start day"
  using assms
proof (induction ps arbitrary: prev d frag s)
  case Nil
  then show ?case by simp
next
  case (Cons p ps)
  let ?el = "PointEl (length (pointViews s)) p"
  let ?s3 = "s\<lparr>tripPoints := tripPoints s @ [length (pointViews s)],
                 pointViews := pointViews s @ [\<lparr>tpData = p, tpElement = True\<rparr>]\<rparr>"
  show ?case
  proof (cases "calendarDay (dateFrom p) = calendarDay prev")
    case True
    have "\<exists>i. renderPoints ps start (dateFrom p) d
                (addTripPointElementToDayElement i ?el frag) ?s3 = Inr (frag', s')"
    proof (cases d)
      case None
      with True Cons.prems(1) show ?thesis
        by (simp add: renderPoints_Cons Let_def del: renderPoints.simps)
    next
      case (Some i)
      with True Cons.prems(1) have
        "renderPoints ps start (dateFrom p) d (addTripPointElementToDayElement i ?el frag) ?s3
           = Inr (frag', s')"
        by (simp add: renderPoints_Cons Let_def del: renderPoints.simps)
      then show ?thesis by blast
    qed
    then obtain i where step:
      "renderPoints ps start (dateFrom p) d (addTripPointElementToDayElement i ?el frag) ?s3
         = Inr (frag', s')" by blast
    show ?thesis
      by (rule Cons.IH[OF step addTripPointElementToDayElement_numbered[OF Cons.prems(2)]])
  next
    case False
    let ?new = "(createTripDayElement (dateFrom p) start)\<lparr>dayItems := [?el]\<rparr>"
    from False Cons.prems(1) have step:
      "renderPoints ps start (dateFrom p) (Some (length frag)) (frag @ [?new]) ?s3 = Inr (frag', s')"
      by (simp add: renderPoints_Cons Let_def del: renderPoints.simps)
    have "numberedFrom start ?new"
      by (simp add: numberedFrom_def createTripDayElement_def)
    then have "\<forall>day \<in> set (frag @ [?new]). numberedFrom start day"
      using Cons.prems(2) by simp
    with step show ?thesis
      by (rule Cons.IH)
  qed
qed

section \<open>The trip start date\<close>

lemma foldl_min_date:
  "foldl (\<lambda>min point. case min of
                None \<Rightarrow> Some (dateFrom point)
              | Some m \<Rightarrow> if dateFrom point < m then Some (dateFrom point) else Some m)
       (Some m) xs = Some (Min (insert m (dateFrom ` set xs)))"
proof (induction xs arbitrary: m)
  case Nil
  then show ?case by simp
next
  case (Cons x xs)
  let ?S = "dateFrom ` set xs"
  have fin: "finite ?S" by simp
  show ?case
  proof (cases "dateFrom x < m")
    case True
    have le: "Min (insert (dateFrom x) ?S) \<le> dateFrom x"
      by (rule Min_le) (simp_all add: fin)
    have "Min (insert m (insert (dateFrom x) ?S)) = min m (Min (insert (dateFrom x) ?S))"
      by (rule Min_insert) (simp_all add: fin)
    also have "\<dots> = Min (insert (dateFrom x) ?S)"
      using le True by (intro min_absorb2) linarith
    finally have "Min (insert m (dateFrom ` set (x # xs))) = Min (insert (dateFrom x) ?S)"
      by (simp only: list.set image_insert)
    then show ?thesis using True Cons.IH[of "dateFrom x"] by simp
  next
    case False
    have le: "Min (insert m ?S) \<le> m"
      by (rule Min_le) (simp_all add: fin)
    have "Min (insert (dateFrom x) (insert m ?S)) = min (dateFrom x) (Min (insert m ?S))"
      by (rule Min_insert) (simp_all add: fin)
    also have "\<dots> = Min (insert m ?S)"
      using le False by (intro min_absorb2) linarith
    finally have "Min (insert m (dateFrom ` set (x # xs))) = Min (insert m ?S)"
      by (simp only: list.set image_insert insert_commute[of m])
    then show ?thesis using False Cons.IH[of m] by simp
  qed
qed

lemma getTripStartDate_Min:
  "getTripStartDate xs = (if xs = [] then None else Some (Min (dateFrom ` set xs)))"
  by (cases xs) (simp_all add: getTripStartDate_def foldl_min_date)

section \<open>The loop of update, seen without handles\<close>

lemma shownDay_append_item:
  "shownDay (day\<lparr>dayItems := dayItems day @ [el]\<rparr>) =
     (shownDay day)\<lparr>dayItems := dayItems (shownDay day) @ [withoutHandle el]\<rparr>"
  by (simp add: shownDay_def)

lemma addTripPointElementToDayElement_shown:
  assumes "map shownDay frag = map shownDay frag2"
  shows "map shownDay (addTripPointElementToDayElement i (PointEl n p) frag) =
         map shownDay (addTripPointElementToDayElement i (PointEl n2 p) frag2)"
proof -
  have len: "length frag = length frag2"
    using assms by (rule map_eq_imp_length_eq)
  show ?thesis
  proof (cases "i < length frag")
    case True
    then have "shownDay (frag ! i) = shownDay (frag2 ! i)"
      using assms len by (metis nth_map)
    then show ?thesis
      using assms
      by (simp add: addTripPointElementToDayElement_def map_update shownDay_append_item)
  next
    case False
    then show ?thesis
      using assms len by (simp add: addTripPointElementToDayElement_def list_update_beyond)
  qed
qed

lemma renderPoints_shown:
  assumes "map shownDay frag = map shownDay frag2"
  shows "map_sum (\<lambda>e. e) (\<lambda>r. map shownDay (fst r)) (renderPoints ps start prev d frag s) =
         map_sum (\<lambda>e. e) (\<lambda>r. map shownDay (fst r)) (renderPoints ps start prev d frag2 s2)"
  using assms
proof (induction ps arbitrary: prev d frag frag2 s s2)
  case Nil
  then show ?case by simp
next
  case (Cons p ps)
  have len: "length frag = length frag2"
    using Cons.prems by (rule map_eq_imp_length_eq)
  let ?s3 = "\<lambda>s. s\<lparr>tripPoints := tripPoints s @ [length (pointViews s)],
                 pointViews := pointViews s @ [\<lparr>tpData = p, tpElement = True\<rparr>]\<rparr>"
  show ?case
  proof (cases "calendarDay (dateFrom p) = calendarDay prev")
    case True
    show ?thesis
    proof (cases d)
      case None
      with True show ?thesis
        by (simp add: renderPoints_Cons Let_def del: renderPoints.simps)
    next
      case (Some i)
      have "map_sum (\<lambda>e. e) (\<lambda>r. map shownDay (fst r))
              (renderPoints ps start (dateFrom p) d
                (addTripPointElementToDayElement i (PointEl (length (pointViews s)) p) frag) (?s3 s)) =
            map_sum (\<lambda>e. e) (\<lambda>r. map shownDay (fst r))
              (renderPoints ps start (dateFrom p) d
                (addTripPointElementToDayElement i (PointEl (length (pointViews s2)) p) frag2) (?s3 s2))"
        by (rule Cons.IH) (rule addTripPointElementToDayElement_shown[OF Cons.prems])
      with True Some show ?thesis
        by (simp add: renderPoints_Cons Let_def del: renderPoints.simps)
    qed
  next
    case False
    let ?new = "\<lambda>s. (createTripDayElement (dateFrom p) start)\<lparr>dayItems := [PointEl (length (pointViews s)) p]\<rparr>"
    have "shownDay (?new s) = shownDay (?new s2)"
      by (simp add: shownDay_def)
    then have "map shownDay (frag @ [?new s]) = map shownDay (frag2 @ [?new s2])"
      using Cons.prems by simp
    then have "map_sum (\<lambda>e. e) (\<lambda>r. map shownDay (fst r))
              (renderPoints ps start (dateFrom p) (Some (length frag)) (frag @ [?new s]) (?s3 s)) =
            map_sum (\<lambda>e. e) (\<lambda>r. map shownDay (fst r))
              (renderPoints ps start (dateFrom p) (Some (length frag)) (frag2 @ [?new s2]) (?s3 s2))"
      by (rule Cons.IH)
    with False len show ?thesis
      by (simp add: renderPoints_Cons Let_def del: renderPoints.simps)
  qed
qed

lemma getDisplayedPoints_state:
  "\<exists>data'. snd (getDisplayedPoints s) = s\<lparr>tripPointsData := data'\<rparr>"
proof -
  have same: "s = s\<lparr>tripPointsData := tripPointsData s\<rparr>" by simp
  show ?thesis
  proof (cases "sortFunction s")
    case (Fn cmp)
    show ?thesis
    proof (cases "fst (filterPoints s (getData s)) = SourceArray")
      case True
      with Fn have "snd (getDisplayedPoints s) =
          s\<lparr>tripPointsData := Some (arraySort cmp (snd (filterPoints s (getData s))))\<rparr>"
        by (simp add: getDisplayedPoints_def sortPoints_def Let_def)
      then show ?thesis by blast
    next
      case False
      with Fn have "snd (getDisplayedPoints s) = s"
        by (simp add: getDisplayedPoints_def sortPoints_def Let_def)
      with same show ?thesis by metis
    qed
  next
    case (NotFn v)
    then have "snd (getDisplayedPoints s) = s"
      by (simp add: getDisplayedPoints_def sortPoints_def)
    with same show ?thesis by metis
  qed
qed

lemma getDisplayedPoints_cong:
  assumes "sortFunction a = sortFunction b" and "filterFunction a = filterFunction b"
    and "tripPointsData a = tripPointsData b"
  shows "fst (getDisplayedPoints a) = fst (getDisplayedPoints b)"
    and "tripPointsData (snd (getDisplayedPoints a)) = tripPointsData (snd (getDisplayedPoints b))"
  using assms
  by (auto simp: getDisplayedPoints_def sortPoints_def filterPoints_def getData_def Let_def
      split: assigned.splits option.splits)

section \<open>Unfolding update\<close>

lemma displayedPoints_unrenderContent [simp]:
  "displayedPoints (unrenderContent s) = displayedPoints s"
  unfolding displayedPoints_def
  by (rule arg_cong[where f = snd], rule getDisplayedPoints_cong) simp_all

lemma getDisplayedPoints_fields [simp]:
  "sortFunction (snd (getDisplayedPoints s)) = sortFunction s"
  "filterFunction (snd (getDisplayedPoints s)) = filterFunction s"
  "tripPointEdit (snd (getDisplayedPoints s)) = tripPointEdit s"
  "tripPoints (snd (getDisplayedPoints s)) = tripPoints s"
  "message (snd (getDisplayedPoints s)) = message s"
  "element (snd (getDisplayedPoints s)) = element s"
  "pointViews (snd (getDisplayedPoints s)) = pointViews s"
  "editViews (snd (getDisplayedPoints s)) = editViews s"
  using getDisplayedPoints_state[of s] by auto

lemma getData_element [simp]: "getData (s\<lparr>element := ns\<rparr>) = getData s"
  by (simp add: getData_def)

lemma daySections_days [simp]: "daySections (map DayEl frag) = frag"
  by (induction frag) simp_all

lemma daySections_append [simp]: "daySections (xs @ ys) = daySections xs @ daySections ys"
  by (induction xs rule: daySections.induct) simp_all

lemma messageNodes_append [simp]: "messageNodes (xs @ ys) = messageNodes xs @ messageNodes ys"
  by (induction xs rule: messageNodes.induct) simp_all

lemma messageNodes_days [simp]: "messageNodes (map DayEl frag) = []"
  by (induction frag) simp_all

lemma update_unfold:
  "update s =
     (if displayedPoints s = [] then Inr (beforeLoop s)
      else (case renderPoints (displayedPoints s) (startDate s) 0 None [] (beforeLoop s) of
              Inl e \<Rightarrow> Inl e
            | Inr (frag, s4) \<Rightarrow> Inr (s4\<lparr>element := element (beforeLoop s) @ map DayEl frag\<rparr>)))"
proof -
  have d: "snd (fst (getDisplayedPoints (unrenderContent s))) = displayedPoints s"
    using displayedPoints_unrenderContent[of s] by (simp add: displayedPoints_def)
  have st: "getTripStartDate (snd (getData (snd (getDisplayedPoints (unrenderContent s))))) = startDate s"
    unfolding startDate_def getData_def
    using getDisplayedPoints_cong(2)[of "unrenderContent s" s] by simp
  have el: "\<And>frag s4. renderPoints (displayedPoints s) (startDate s) 0 None [] (beforeLoop s) = Inr (frag, s4)
      \<Longrightarrow> element s4 = element (beforeLoop s)"
    using renderPoints_fields by blast
  let ?s2 = "snd (getDisplayedPoints (unrenderContent s))"
  show ?thesis
  proof (cases "message s = []")
    case True
    have "element ?s2 = []" by simp
    then have "?s2\<lparr>element := []\<rparr> = ?s2\<lparr>element := element ?s2\<rparr>" by simp
    then have same: "beforeLoop s = ?s2" using True by (simp add: beforeLoop_def)
    have "update s =
           (if displayedPoints s = [] then Inr ?s2
            else (case renderPoints (displayedPoints s) (startDate s) 0 None [] ?s2 of
                    Inl e \<Rightarrow> Inl e
                  | Inr (frag, s4) \<Rightarrow> Inr (s4\<lparr>element := element s4 @ map DayEl frag\<rparr>)))"
      using True d st by (simp add: update_def Let_def split_beta)
    then show ?thesis
      using el unfolding same by (auto split: sum.splits)
  next
    case False
    have "update s =
           (if displayedPoints s = [] then Inr (beforeLoop s)
            else (case renderPoints (displayedPoints s) (startDate s) 0 None [] (beforeLoop s) of
                    Inl e \<Rightarrow> Inl e
                  | Inr (frag, s4) \<Rightarrow> Inr (s4\<lparr>element := element s4 @ map DayEl frag\<rparr>)))"
      using False d st by (simp add: update_def Let_def split_beta beforeLoop_def)
    then show ?thesis
      using el by (auto split: sum.splits)
  qed
qed

lemma specDaySections_length_same:
  "key y = key x \<Longrightarrow>
     length (specDaySections key (x # y # ys)) = length (specDaySections key (y # ys))"
  using specDaySections_Cons[of key y ys] by auto

lemma specDaySections_sorted_length:
  "sorted (map key xs) \<Longrightarrow> length (specDaySections key xs) = length (remdups (map key xs))"
proof (induction key xs rule: specDaySections.induct)
  case (1 key)
  then show ?case by simp
next
  case (2 key x)
  then show ?case by simp
next
  case (3 key x y ys)
  show ?case
  proof (cases "key y = key x")
    case True
    then show ?thesis
      using 3 specDaySections_length_same[of key y x ys] by simp
  next
    case False
    have "key x \<notin> set (map key (y # ys))"
      using False "3.prems" by auto
    then show ?thesis
      using False 3 by simp
  qed
qed

lemma displayedPoints_subset: "set (displayedPoints s) \<subseteq> set (snd (getData s))"
  by (auto simp: displayedPoints_def getDisplayedPoints_def sortPoints_def filterPoints_def
      Let_def split: assigned.splits)

lemma getData_after_sort:
  "set (snd (getData (snd (getDisplayedPoints s)))) = set (snd (getData s))"
  by (auto simp: getDisplayedPoints_def sortPoints_def filterPoints_def getData_def
      Let_def split: assigned.splits option.splits)

lemma startDate_all_data: "startDate s = getTripStartDate (snd (getData s))"
proof -
  have "set (snd (getData (snd (getDisplayedPoints s)))) = set (snd (getData s))"
    by (rule getData_after_sort)
  moreover from this have
    "(snd (getData (snd (getDisplayedPoints s))) = []) = (snd (getData s) = [])"
    by (metis set_empty)
  ultimately show ?thesis
    by (simp add: startDate_def getTripStartDate_Min)
qed

lemma renderPoints_first:
  assumes "calendarDay (dateFrom p) \<noteq> 0"
  shows "\<exists>G s'. renderPoints (p # ps) start 0 None [] s = Inr (G, s') \<and>
           map (\<lambda>d. map itemData (dayItems d)) G =
             specDaySections (\<lambda>q. calcDaysDiff st (dateFrom q)) (p # ps)"
proof -
  let ?el = "PointEl (length (pointViews s)) p"
  let ?s3 = "s\<lparr>tripPoints := tripPoints s @ [length (pointViews s)],
                 pointViews := pointViews s @ [\<lparr>tpData = p, tpElement = True\<rparr>]\<rparr>"
  let ?new = "(createTripDayElement (dateFrom p) start)\<lparr>dayItems := [?el]\<rparr>"
  have "\<exists>G s'. renderPoints ps start (dateFrom p) (Some (length ([] :: tripDay list))) ([] @ [?new]) ?s3
            = Inr ([] @ G, s') \<and>
           map (\<lambda>d. map itemData (dayItems d)) G =
             specDaySections (\<lambda>q. calcDaysDiff st (dateFrom q)) (map itemData (dayItems ?new) @ ps)"
    by (rule renderPoints_from_day) auto
  then show ?thesis
    using assms
    by (simp add: renderPoints_Cons Let_def calendarDay_def del: renderPoints.simps)
qed

section \<open>Day sections\<close>

lemma displayedPoints_exampleList:
  "displayedPoints exampleList = [examplePoint 1 10, examplePoint 2 10, examplePoint 3 11]"
  by (simp add: displayedPoints_def example_simps)

text \<open>
  C1, as amended. When the first displayed record is not on the calendar day of the epoch,
  \<open>update()\<close> returns normally and its day sections hold, in order, the runs of
  consecutive displayed records with the same day difference from the trip start date: a
  section starts at the first record and exactly where the day difference differs from
  the previous record's. When the displayed records are in the order of their days, the
  number of sections is the number of distinct day differences.
\<close>

theorem update_day_sections:
  assumes "displayedPoints s = p # ps"
    and "calendarDay (dateFrom p) \<noteq> 0"
    and "getTripStartDate (snd (getData s)) = Some st"
  shows "\<exists>s'. update s = Inr s' \<and>
           map (\<lambda>day. map itemData (dayItems day)) (daySections (element s')) =
             specDaySections (\<lambda>q. calcDaysDiff st (dateFrom q)) (p # ps) \<and>
           (sorted (map (\<lambda>q. calcDaysDiff st (dateFrom q)) (p # ps)) \<longrightarrow>
              length (daySections (element s')) =
                length (remdups (map (\<lambda>q. calcDaysDiff st (dateFrom q)) (p # ps))))"
proof -
  let ?key = "\<lambda>q. calcDaysDiff st (dateFrom q)"
  obtain G s4 where loop:
    "renderPoints (p # ps) (startDate s) 0 None [] (beforeLoop s) = Inr (G, s4)"
    "map (\<lambda>d. map itemData (dayItems d)) G = specDaySections ?key (p # ps)"
    using renderPoints_first[OF assms(2)] by blast
  let ?s' = "s4\<lparr>element := element (beforeLoop s) @ map DayEl G\<rparr>"
  have upd: "update s = Inr ?s'"
    using assms(1) loop(1) by (simp add: update_unfold)
  have secs: "daySections (element ?s') = G"
    by (simp add: beforeLoop_def createMessage_def)
  have "length G = length (specDaySections ?key (p # ps))"
    using loop(2) by (metis length_map)
  then have "sorted (map ?key (p # ps)) \<longrightarrow> length G = length (remdups (map ?key (p # ps)))"
    using specDaySections_sorted_length[of ?key "p # ps"] by simp
  then show ?thesis
    using upd secs loop(2) by auto
qed

theorem update_day_sections_witness:
  "displayedPoints exampleList = [examplePoint 1 10, examplePoint 2 10, examplePoint 3 11] \<and>
   calendarDay (dateFrom (examplePoint 1 10)) \<noteq> 0 \<and>
   getTripStartDate (snd (getData exampleList)) = Some (10 * msPerDay) \<and>
   map (\<lambda>q. calcDaysDiff (10 * msPerDay) (dateFrom q))
     [examplePoint 1 10, examplePoint 2 10, examplePoint 3 11] = [0, 0, 1] \<and>
   (\<exists>s'. update exampleList = Inr s' \<and>
      map (\<lambda>day. map itemData (dayItems day)) (daySections (element s')) =
        [[examplePoint 1 10, examplePoint 2 10], [examplePoint 3 11]] \<and>
      length (daySections (element s')) = 2)"
  using update_day_sections [of exampleList "examplePoint 1 10"
      "[examplePoint 2 10, examplePoint 3 11]" "10 * msPerDay"]
  by (simp add: displayedPoints_exampleList)
     (auto simp add: exampleList_def newTripPointsList_def getData_def getTripStartDate_def
        examplePoint_def msPerDay_def calendarDay_def calcDaysDiff_def)

text \<open>
  The claim as stated fails for a displayed sequence that is not in the order of the
  dates: with a comparator on the ids, records on days 0, 1, 0 from the trip start are
  rendered as three day sections, and have two distinct day differences.
\<close>

theorem day_sections_distinct_counterexample:
  "displayedPoints exampleInterleaved = [examplePoint 1 10, examplePoint 2 11, examplePoint 3 10] \<and>
   getTripStartDate (snd (getData exampleInterleaved)) = Some (10 * msPerDay) \<and>
   map (\<lambda>q. calcDaysDiff (10 * msPerDay) (dateFrom q)) (displayedPoints exampleInterleaved) = [0, 1, 0] \<and>
   length (remdups (map (\<lambda>q. calcDaysDiff (10 * msPerDay) (dateFrom q))
     (displayedPoints exampleInterleaved))) = 2 \<and>
   map_sum id (\<lambda>s'. length (daySections (element s'))) (update exampleInterleaved) = Inr 3"
  by (simp add: displayedPoints_def exampleInterleaved_def example_simps)

section \<open>Day numbers\<close>

lemma update_exampleFiltered:
  "update exampleFiltered = Inr (exampleFiltered\<lparr>
      tripPoints := [0, 1],
      element := [DayEl \<lparr>dayNumber = Some 3, dayTitle = 12 * msPerDay,
                         dayItems = [PointEl 0 (examplePoint 2 12)]\<rparr>,
                  DayEl \<lparr>dayNumber = Some 4, dayTitle = 13 * msPerDay,
                         dayItems = [PointEl 1 (examplePoint 3 13)]\<rparr>],
      pointViews := [\<lparr>tpData = examplePoint 2 12, tpElement = True\<rparr>,
                     \<lparr>tpData = examplePoint 3 13, tpElement = True\<rparr>]\<rparr>)"
  by (simp add: exampleFiltered_def example_simps)

text \<open>
  C6. After \<open>update()\<close>, every day section has items and carries the number
  \<open>calcDaysDiff start date + 1\<close>, where \<open>date\<close> is the \<open>dateFrom\<close> of its first item and
  \<open>start\<close> is the minimum \<open>dateFrom\<close> over all the records the data source holds, whether
  displayed or filtered out.
\<close>

theorem day_numbers_from_trip_start:
  assumes "update s = Inr s'" and "tripPointsData s = Some data"
  shows "\<forall>day \<in> set (daySections (element s')).
           dayItems day \<noteq> [] \<and>
           dayNumber day =
             Some (calcDaysDiff (Min (dateFrom ` set data))
                     (dateFrom (itemData (hd (dayItems day)))) + 1)"
proof (cases "displayedPoints s = []")
  case True
  then have "s' = beforeLoop s" using assms(1) by (simp add: update_unfold)
  then show ?thesis by (simp add: beforeLoop_def createMessage_def)
next
  case False
  then obtain G s4 where loop:
    "renderPoints (displayedPoints s) (startDate s) 0 None [] (beforeLoop s) = Inr (G, s4)"
    and s': "s' = s4\<lparr>element := element (beforeLoop s) @ map DayEl G\<rparr>"
    using assms(1) by (auto simp: update_unfold split: sum.splits)
  have "\<forall>day \<in> set G. numberedFrom (startDate s) day"
    by (rule renderPoints_numbered[OF loop]) simp
  moreover have "daySections (element s') = G"
    using s' by (simp add: beforeLoop_def createMessage_def)
  moreover have "data \<noteq> []"
    using False displayedPoints_subset[of s] assms(2) by (auto simp: getData_def)
  then have "startDate s = Some (Min (dateFrom ` set data))"
    using assms(2) by (simp add: startDate_all_data getTripStartDate_Min getData_def)
  ultimately show ?thesis
    by (simp add: numberedFrom_def)
qed

theorem day_numbers_from_trip_start_witness:
  "update exampleFiltered = Inr exampleFilteredRendered \<and>
   tripPointsData exampleFiltered = Some [examplePoint 1 10, examplePoint 2 12, examplePoint 3 13] \<and>
   displayedPoints exampleFiltered = [examplePoint 2 12, examplePoint 3 13] \<and>
   Min (dateFrom ` set [examplePoint 1 10, examplePoint 2 12, examplePoint 3 13]) = 10 * msPerDay \<and>
   map dayNumber (daySections (element exampleFilteredRendered)) = [Some 3, Some 4]"
  using day_numbers_from_trip_start [of exampleFiltered exampleFilteredRendered
      "[examplePoint 1 10, examplePoint 2 12, examplePoint 3 13]"]
  by (simp add: exampleFilteredRendered_def update_exampleFiltered displayedPoints_def)
     (simp add: exampleFiltered_def example_simps)

section \<open>Messages\<close>

lemma displayedPoints_cong:
  assumes "sortFunction a = sortFunction b" and "filterFunction a = filterFunction b"
    and "tripPointsData a = tripPointsData b"
  shows "displayedPoints a = displayedPoints b"
  using getDisplayedPoints_cong(1)[OF assms] by (simp add: displayedPoints_def)

lemma startDate_cong:
  assumes "tripPointsData a = tripPointsData b"
  shows "startDate a = startDate b"
  using assms by (simp add: startDate_all_data getData_def)

lemma displayedPoints_after_sort:
  assumes "case sortFunction s of Fn cmp \<Rightarrow> consistentComparator cmp | NotFn v \<Rightarrow> True"
  shows "displayedPoints (snd (getDisplayedPoints s)) = displayedPoints s"
proof (cases "sortFunction s")
  case (Fn cmp)
  then have "consistentComparator cmp" using assms by simp
  then have idem: "\<And>xs. arraySort cmp (arraySort cmp xs) = arraySort cmp xs"
    by (rule arraySort_idem)
  show ?thesis
    using Fn idem
    by (auto simp: displayedPoints_def getDisplayedPoints_def sortPoints_def filterPoints_def
        getData_def Let_def split: assigned.splits option.splits)
next
  case (NotFn v)
  then have "snd (getDisplayedPoints s) = s"
    by (simp add: getDisplayedPoints_def sortPoints_def)
  then show ?thesis by simp
qed

lemma startDate_after_sort: "startDate (snd (getDisplayedPoints s)) = startDate s"
proof -
  have "set (snd (getData (snd (getDisplayedPoints s)))) = set (snd (getData s))"
    by (rule getData_after_sort)
  moreover from this have
    "(snd (getData (snd (getDisplayedPoints s))) = []) = (snd (getData s) = [])"
    by (metis set_empty)
  ultimately show ?thesis
    by (simp add: startDate_all_data getTripStartDate_Min)
qed

lemma beforeLoop_fields [simp]:
  "sortFunction (beforeLoop s) = sortFunction s"
  "filterFunction (beforeLoop s) = filterFunction s"
  "tripPointEdit (beforeLoop s) = None"
  "message (beforeLoop s) = message s"
  "element (beforeLoop s) = (if message s \<noteq> [] then [createMessage (message s)] else [])"
  "tripPointsData (beforeLoop s) = tripPointsData (snd (getDisplayedPoints s))"
  using getDisplayedPoints_cong(2)[of "unrenderContent s" s]
  by (simp_all add: beforeLoop_def)

lemma update_after:
  assumes "update s = Inr s'"
  shows "sortFunction s' = sortFunction s" and "filterFunction s' = filterFunction s"
    and "message s' = message s" and "tripPointEdit s' = None"
    and "tripPointsData s' = tripPointsData (snd (getDisplayedPoints s))"
    and "element s' = (if message s \<noteq> [] then [createMessage (message s)] else [])
            @ map DayEl (daySections (element s'))"
proof -
  have "sortFunction s' = sortFunction s \<and> filterFunction s' = filterFunction s \<and>
        message s' = message s \<and> tripPointEdit s' = None \<and>
        tripPointsData s' = tripPointsData (snd (getDisplayedPoints s)) \<and>
        element s' = (if message s \<noteq> [] then [createMessage (message s)] else [])
            @ map DayEl (daySections (element s'))"
  proof (cases "displayedPoints s = []")
    case True
    then have "s' = beforeLoop s" using assms by (simp add: update_unfold)
    then show ?thesis by (simp add: createMessage_def)
  next
    case False
    then obtain G s4 where loop:
      "renderPoints (displayedPoints s) (startDate s) 0 None [] (beforeLoop s) = Inr (G, s4)"
      and s': "s' = s4\<lparr>element := element (beforeLoop s) @ map DayEl G\<rparr>"
      using assms by (auto simp: update_unfold split: sum.splits)
    from renderPoints_fields[OF loop] s' show ?thesis
      by (simp add: createMessage_def)
  qed
  then show "sortFunction s' = sortFunction s" and "filterFunction s' = filterFunction s"
    and "message s' = message s" and "tripPointEdit s' = None"
    and "tripPointsData s' = tripPointsData (snd (getDisplayedPoints s))"
    and "element s' = (if message s \<noteq> [] then [createMessage (message s)] else [])
            @ map DayEl (daySections (element s'))"
    by simp_all
qed

lemma update_sections_cong:
  assumes "displayedPoints a = displayedPoints b" and "startDate a = startDate b"
  shows "map_sum (\<lambda>e. e) (\<lambda>s'. map shownDay (daySections (element s'))) (update a) =
         map_sum (\<lambda>e. e) (\<lambda>s'. map shownDay (daySections (element s'))) (update b)"
proof (cases "displayedPoints b = []")
  case True
  then show ?thesis using assms(1) by (simp add: update_unfold createMessage_def)
next
  case False
  have loop: "map_sum (\<lambda>e. e) (\<lambda>r. map shownDay (fst r))
            (renderPoints (displayedPoints b) (startDate b) 0 None [] (beforeLoop a)) =
        map_sum (\<lambda>e. e) (\<lambda>r. map shownDay (fst r))
            (renderPoints (displayedPoints b) (startDate b) 0 None [] (beforeLoop b))"
    by (rule renderPoints_shown) simp
  show ?thesis
    using False assms loop
    by (auto simp add: update_unfold createMessage_def split: sum.splits)
qed

lemma renderedTree_after_update:
  assumes "update s = Inr s'"
  shows "renderedTree s' =
           (if message s \<noteq> [] then [createMessage (message s)] else [])
           @ map DayEl (map shownDay (daySections (element s')))"
proof -
  have "renderedTree s' = map shownNode ((if message s \<noteq> [] then [createMessage (message s)] else [])
            @ map DayEl (daySections (element s')))"
    unfolding renderedTree_def using update_after(6)[OF assms] by simp
  then show ?thesis by (simp add: createMessage_def)
qed

lemma update_tree_cong:
  assumes "displayedPoints a = displayedPoints b" and "startDate a = startDate b"
    and "message a = message b"
  shows "map_sum (\<lambda>e. e) renderedTree (update a) = map_sum (\<lambda>e. e) renderedTree (update b)"
proof -
  have secs: "map_sum (\<lambda>e. e) (\<lambda>s'. map shownDay (daySections (element s'))) (update a) =
         map_sum (\<lambda>e. e) (\<lambda>s'. map shownDay (daySections (element s'))) (update b)"
    by (rule update_sections_cong[OF assms(1,2)])
  show ?thesis
  proof (cases "update a")
    case (Inl e)
    then show ?thesis using secs by (cases "update b") simp_all
  next
    case (Inr sa)
    then obtain sb where sb: "update b = Inr sb"
      using secs by (cases "update b") simp_all
    have "map shownDay (daySections (element sa)) = map shownDay (daySections (element sb))"
      using secs Inr sb by simp
    then show ?thesis
      using renderedTree_after_update[OF Inr] renderedTree_after_update[OF sb] assms(3) Inr sb
      by simp
  qed
qed

text \<open>
  C7. When the sort function is a consistent comparator or not a function,
  \<open>showLoadingMessage()\<close> followed by \<open>hideMessage()\<close> ends as \<open>update()\<close> with no message
  set does: with the same fault, or with the same rendered tree; and that tree holds no
  message node.
\<close>

theorem show_then_hide:
  assumes "case sortFunction s of Fn cmp \<Rightarrow> consistentComparator cmp | NotFn v \<Rightarrow> True"
  shows "map_sum (\<lambda>e. e) renderedTree
           (case showLoadingMessage s of Inl e \<Rightarrow> Inl e | Inr s1 \<Rightarrow> hideMessage s1) =
         map_sum (\<lambda>e. e) renderedTree (update (s\<lparr>message := []\<rparr>)) \<and>
         (\<forall>s2. (case showLoadingMessage s of Inl e \<Rightarrow> Inl e | Inr s1 \<Rightarrow> hideMessage s1) = Inr s2
            \<longrightarrow> messageNodes (element s2) = [])"
proof -
  let ?a = "s\<lparr>message := ''Loading route...''\<rparr>"
  let ?b = "s\<lparr>message := []\<rparr>"
  have dab: "displayedPoints ?a = displayedPoints ?b"
    by (rule displayedPoints_cong) simp_all
  have sab: "startDate ?a = startDate ?b"
    by (rule startDate_cong) simp
  show ?thesis
  proof (cases "update ?a")
    case (Inl e)
    have "map_sum (\<lambda>e. e) (\<lambda>s'. map shownDay (daySections (element s'))) (update ?a) =
          map_sum (\<lambda>e. e) (\<lambda>s'. map shownDay (daySections (element s'))) (update ?b)"
      by (rule update_sections_cong[OF dab sab])
    then have "update ?b = Inl e" using Inl by (cases "update ?b") simp_all
    then show ?thesis using Inl by (simp add: showLoadingMessage_def)
  next
    case (Inr s1)
    let ?c = "s1\<lparr>message := []\<rparr>"
    have cons: "case sortFunction ?a of Fn cmp \<Rightarrow> consistentComparator cmp | NotFn v \<Rightarrow> True"
      using assms by simp
    have "displayedPoints ?c = displayedPoints (snd (getDisplayedPoints ?a))"
      by (rule displayedPoints_cong) (simp_all add: update_after[OF Inr])
    also have "\<dots> = displayedPoints ?a"
      by (rule displayedPoints_after_sort[OF cons])
    finally have dcb: "displayedPoints ?c = displayedPoints ?b" using dab by simp
    have "startDate ?c = startDate (snd (getDisplayedPoints ?a))"
      by (rule startDate_cong) (simp add: update_after[OF Inr])
    also have "\<dots> = startDate ?a" by (rule startDate_after_sort)
    finally have scb: "startDate ?c = startDate ?b" using sab by simp
    have tree: "map_sum (\<lambda>e. e) renderedTree (update ?c) = map_sum (\<lambda>e. e) renderedTree (update ?b)"
      by (rule update_tree_cong[OF dcb scb]) simp
    have msgs: "\<forall>s2. update ?c = Inr s2 \<longrightarrow> messageNodes (element s2) = []"
    proof (intro allI impI)
      fix s2 assume "update ?c = Inr s2"
      from update_after(6)[OF this] have "element s2 = map DayEl (daySections (element s2))"
        by simp
      then have "messageNodes (element s2) = messageNodes (map DayEl (daySections (element s2)))"
        by simp
      then show "messageNodes (element s2) = []" by simp
    qed
    show ?thesis
      using Inr tree msgs by (simp add: showLoadingMessage_def hideMessage_def)
  qed
qed


theorem show_then_hide_witness:
  "consistentComparator (\<lambda>point1 point2. compareDate (dateFrom point1) (dateFrom point2)) \<and>
   sortFunction exampleUnsorted =
     Fn (\<lambda>point1 point2. compareDate (dateFrom point1) (dateFrom point2)) \<and>
   map_sum (\<lambda>e. e) renderedTree
     (case showLoadingMessage exampleUnsorted of Inl e \<Rightarrow> Inl e | Inr s1 \<Rightarrow> hideMessage s1) =
     Inr [DayEl \<lparr>dayNumber = Some 1, dayTitle = 10 * msPerDay,
                 dayItems = [PointEl 0 (examplePoint 1 10), PointEl 0 (examplePoint 2 10)]\<rparr>,
          DayEl \<lparr>dayNumber = Some 2, dayTitle = 11 * msPerDay,
                 dayItems = [PointEl 0 (examplePoint 3 11)]\<rparr>] \<and>
   map_sum (\<lambda>e. e) renderedTree (update (exampleUnsorted\<lparr>message := []\<rparr>)) =
     Inr [DayEl \<lparr>dayNumber = Some 1, dayTitle = 10 * msPerDay,
                 dayItems = [PointEl 0 (examplePoint 1 10), PointEl 0 (examplePoint 2 10)]\<rparr>,
          DayEl \<lparr>dayNumber = Some 2, dayTitle = 11 * msPerDay,
                 dayItems = [PointEl 0 (examplePoint 3 11)]\<rparr>]"
  using show_then_hide [of exampleUnsorted] consistent_compareDate
  by (simp add: exampleUnsorted_def showLoadingMessage_def hideMessage_def renderedTree_def
      shownDay_def unrenderTripPoint_def example_simps)

section \<open>One edit session\<close>

lemma oneEditSession_iff:
  "oneEditSession s \<longleftrightarrow>
     (\<forall>h < length (editViews s). editElement (editViews s ! h) = (tripPointEdit s = Some h)) \<and>
     (\<forall>e. tripPointEdit s = Some e \<longrightarrow> e < length (editViews s))"
  by (auto simp: oneEditSession_def list_all_iff split: option.splits)

lemma oneEditSession_cong:
  "editViews a = editViews b \<Longrightarrow> tripPointEdit a = tripPointEdit b \<Longrightarrow>
     oneEditSession a = oneEditSession b"
  by (simp add: oneEditSession_iff)

lemma onCancel_session:
  assumes "oneEditSession s" and "e < length (editViews s)" and "onCancel e s = Inr s'"
  shows "oneEditSession s' \<and> tripPointEdit s' = None \<and>
         length (editViews s') = length (editViews s) \<and>
         (\<forall>h < length (editViews s'). \<not> editElement (editViews s' ! h))"
proof -
  have rendered: "editElement (editViews s ! e)"
    using assms(3)
    by (auto simp: onCancel_def Let_def createTripPoint_def newTripPoint_def split: if_splits)
  from rendered have cur: "tripPointEdit s = Some e"
    using assms(1,2) by (simp add: oneEditSession_iff)
  have ev: "editViews s' = (editViews s)[e := (editViews s ! e)\<lparr>editElement := False\<rparr>]"
    and c: "tripPointEdit s' = None"
    using assms(3) rendered
    by (auto simp: onCancel_def Let_def createTripPoint_def newTripPoint_def renderTripPoint_def
        unrenderTripPointEdit_def split: if_splits)
  have closed: "\<forall>h < length (editViews s'). \<not> editElement (editViews s' ! h)"
    using assms(1) cur ev by (auto simp: oneEditSession_iff nth_list_update)
  then show ?thesis
    using c ev by (simp add: oneEditSession_iff)
qed

lemma onEdit_session:
  assumes "oneEditSession s" and "onEdit v s = Inr s'"
  shows "oneEditSession s' \<and> tripPointEdit s' = Some (length (editViews s)) \<and>
         (\<forall>e. tripPointEdit s = Some e \<longrightarrow> \<not> editElement (editViews s' ! e))"
proof -
  obtain s1 where s1: "(case tripPointEdit s of Some e \<Rightarrow> cancelEdit e s | None \<Rightarrow> Inr s) = Inr s1"
    using assms(2) by (auto simp: onEdit_def split: sum.splits)
  have closed1: "tripPointEdit s1 = None \<and> length (editViews s1) = length (editViews s) \<and>
         (\<forall>h < length (editViews s1). \<not> editElement (editViews s1 ! h))"
  proof (cases "tripPointEdit s")
    case None
    then show ?thesis using s1 assms(1) by (auto simp: oneEditSession_iff)
  next
    case (Some e)
    then have "e < length (editViews s)" using assms(1) by (simp add: oneEditSession_iff)
    then show ?thesis
      using onCancel_session[OF assms(1), of e s1] s1 Some by (simp add: cancelEdit_def)
  qed
  let ?n = "length (editViews s1)"
  have ev: "editViews s' = editViews s1 @
      [\<lparr>editData = tpData (pointViews s1 ! v), editElement = True, editBlocked = Unblocked,
        editShakes = 0, editUnsaved = False\<rparr>]"
    and c: "tripPointEdit s' = Some ?n"
    using assms(2) s1
    by (auto simp: onEdit_def Let_def createTripPointEdit_def newTripPointEdit_def
        renderTripPointEdit_def unrenderTripPoint_def split: if_splits)
  have "oneEditSession s'"
    using closed1 ev c by (auto simp: oneEditSession_iff nth_append)
  moreover have "\<forall>e. tripPointEdit s = Some e \<longrightarrow> \<not> editElement (editViews s' ! e)"
    using assms(1) closed1 ev by (auto simp: oneEditSession_iff nth_append)
  ultimately show ?thesis using c closed1 by simp
qed

lemma openTripPointInEditMode_session:
  assumes "oneEditSession s" and "openTripPointInEditMode i s = Inr s'"
  shows "oneEditSession s'"
proof (cases "find (\<lambda>point. pointId (tpData (pointViews s ! point)) = i) (tripPoints s)")
  case None
  then show ?thesis using assms by (simp add: openTripPointInEditMode_def)
next
  case (Some v)
  then have "onEdit v s = Inr s'" using assms(2) by (simp add: openTripPointInEditMode_def)
  from onEdit_session[OF assms(1) this] show ?thesis by simp
qed

lemma unrenderContent_editViews:
  "editViews (unrenderContent s) =
     (case tripPointEdit s of
        None \<Rightarrow> editViews s
      | Some e \<Rightarrow> (editViews s)[e := (editViews s ! e)\<lparr>editElement := False\<rparr>])"
  by (simp add: unrenderContent_def Let_def unrenderTripPointEdit_def split: option.splits)

lemma update_editViews:
  assumes "update s = Inr s'"
  shows "editViews s' = editViews (unrenderContent s)"
proof (cases "displayedPoints s = []")
  case True
  then have "s' = beforeLoop s" using assms by (simp add: update_unfold)
  then show ?thesis by (simp add: beforeLoop_def)
next
  case False
  then obtain G s4 where loop:
    "renderPoints (displayedPoints s) (startDate s) 0 None [] (beforeLoop s) = Inr (G, s4)"
    and s': "s' = s4\<lparr>element := element (beforeLoop s) @ map DayEl G\<rparr>"
    using assms by (auto simp: update_unfold split: sum.splits)
  from renderPoints_fields[OF loop] s' show ?thesis
    by (simp add: beforeLoop_def)
qed

lemma update_session:
  assumes "oneEditSession s" and "update s = Inr s'"
  shows "oneEditSession s'"
proof -
  have "tripPointEdit s' = None" by (rule update_after(4)[OF assms(2)])
  moreover have "\<forall>h < length (editViews s'). \<not> editElement (editViews s' ! h)"
    using assms(1) update_editViews[OF assms(2)]
    by (auto simp: unrenderContent_editViews oneEditSession_iff nth_list_update
        split: option.splits)
  ultimately show ?thesis by (simp add: oneEditSession_iff)
qed

lemma update_session_fields:
  assumes "oneEditSession s" and "editViews t = editViews s"
    and "tripPointEdit t = tripPointEdit s" and "update t = Inr s'"
  shows "oneEditSession s'"
proof -
  have "oneEditSession t" using assms(1-3) oneEditSession_cong by blast
  then show ?thesis using assms(4) by (rule update_session)
qed

lemma onEditView_session:
  assumes "oneEditSession s" and "\<And>x. editElement (f x) = editElement x"
  shows "oneEditSession (onEditView h f s)"
proof -
  have "editElement ((editViews s)[h := f (editViews s ! h)] ! k) = editElement (editViews s ! k)"
    if "k < length (editViews s)" for k
    using that assms(2) by (cases "k = h") simp_all
  then show ?thesis
    using assms(1) by (simp add: oneEditSession_iff onEditView_def)
qed

lemma step_session:
  assumes "oneEditSession s" and "possible ev s" and "step ev s = Inr s'"
  shows "oneEditSession s'"
proof (cases ev)
  case Update
  then have "update s = Inr s'" using assms(3) by simp
  with assms(1) show ?thesis by (rule update_session)
next
  case (SetSortFunction fn)
  then have "update (s\<lparr>sortFunction := fn\<rparr>) = Inr s'"
    using assms(3) by (simp add: setSortFunction_def)
  then show ?thesis by (rule update_session_fields[OF assms(1), rotated 2]) simp_all
next
  case (SetFilterFunction fn)
  then have "update (s\<lparr>filterFunction := fn\<rparr>) = Inr s'"
    using assms(3) by (simp add: setFilterFunction_def)
  then show ?thesis by (rule update_session_fields[OF assms(1), rotated 2]) simp_all
next
  case ShowErrorMessage
  then have "\<exists>m. update (s\<lparr>message := m\<rparr>) = Inr s'"
    using assms(3) by (auto simp add: showErrorMessage_def)
  then obtain m where "update (s\<lparr>message := m\<rparr>) = Inr s'" by blast
  then show ?thesis by (rule update_session_fields[OF assms(1), rotated 2]) simp_all
next
  case ShowLoadingMessage
  then have "\<exists>m. update (s\<lparr>message := m\<rparr>) = Inr s'"
    using assms(3) by (auto simp add: showLoadingMessage_def)
  then obtain m where "update (s\<lparr>message := m\<rparr>) = Inr s'" by blast
  then show ?thesis by (rule update_session_fields[OF assms(1), rotated 2]) simp_all
next
  case HideMessage
  then have "update (s\<lparr>message := []\<rparr>) = Inr s'"
    using assms(3) by (simp add: hideMessage_def)
  then show ?thesis by (rule update_session_fields[OF assms(1), rotated 2]) simp_all
next
  case (OpenTripPointInEditMode i)
  then have "openTripPointInEditMode i s = Inr s'" using assms(3) by simp
  with assms(1) show ?thesis by (rule openTripPointInEditMode_session)
next
  case (EditRequest v)
  then have "onEdit v s = Inr s'" using assms(3) by simp
  from onEdit_session[OF assms(1) this] show ?thesis by simp
next
  case (CancelRequest e)
  then have "onCancel e s = Inr s'" and "e < length (editViews s)"
    using assms(2,3) by simp_all
  from onCancel_session[OF assms(1) this(2) this(1)] show ?thesis by simp
next
  case (SubmitRequest e newData)
  have "oneEditSession (onEditView e savingBlock s)"
    by (rule onEditView_session[OF assms(1)]) (simp add: savingBlock_def)
  then show ?thesis using SubmitRequest assms(3) by (simp add: onSubmit_def)
next
  case (DeleteRequest e)
  have "oneEditSession (onEditView e deletingBlock s)"
    by (rule onEditView_session[OF assms(1)]) (simp add: deletingBlock_def)
  then show ?thesis using DeleteRequest assms(3) by (simp add: onDelete_def)
next
  case (UpdateRejected e)
  have "oneEditSession (onEditView e shake s)"
    by (rule onEditView_session[OF assms(1)]) (simp add: shake_def)
  then have "oneEditSession (onEditView e changesUnsaved (onEditView e shake s))"
    by (rule onEditView_session) (simp add: changesUnsaved_def)
  then have "oneEditSession (onSubmitCatch e s)"
    unfolding onSubmitCatch_def by (rule onEditView_session) (simp add: unblock_def)
  then show ?thesis using UpdateRejected assms(3) by simp
next
  case (DeleteRejected e)
  have "oneEditSession (onEditView e changesUnsaved s)"
    by (rule onEditView_session[OF assms(1)]) (simp add: changesUnsaved_def)
  then have "oneEditSession (onDeleteCatch e s)"
    unfolding onDeleteCatch_def by (rule onEditView_session) (simp add: unblock_def)
  then show ?thesis using DeleteRejected assms(3) by simp
next
  case (DataChanged data)
  have "oneEditSession (s\<lparr>tripPointsData := data\<rparr>)"
    using assms(1) by (simp add: oneEditSession_iff)
  then show ?thesis using DataChanged assms(3) by simp
qed

lemma reachable_session: "reachable s \<Longrightarrow> oneEditSession s"
proof (induction rule: reachable.induct)
  case (constructed data)
  then show ?case by (simp add: oneEditSession_iff newTripPointsList_def)
next
  case (after s ev s')
  then show ?case using step_session by blast
qed

text \<open>
  C2. In every state the component can reach, an edit view is open exactly when it is the
  edit session the component holds, so at most one is open. Whenever a read-only view's
  edit request or \<open>openTripPointInEditMode\<close> opens a session, the session is a newly created
  edit view, it is the only one open afterwards, and the edit view of the session that
  existed before is closed.
\<close>

theorem at_most_one_edit_session:
  assumes "reachable s"
  shows "oneEditSession s \<and>
         (\<forall>tripPoint s'. onEdit tripPoint s = Inr s' \<longrightarrow>
            tripPointEdit s' = Some (length (editViews s)) \<and> oneEditSession s' \<and>
            (\<forall>e. tripPointEdit s = Some e \<longrightarrow> \<not> editElement (editViews s' ! e))) \<and>
         (\<forall>i s'. openTripPointInEditMode i s = Inr s' \<longrightarrow>
            s' = s \<or>
            tripPointEdit s' = Some (length (editViews s)) \<and> oneEditSession s' \<and>
            (\<forall>e. tripPointEdit s = Some e \<longrightarrow> \<not> editElement (editViews s' ! e)))"
proof -
  have inv: "oneEditSession s" by (rule reachable_session[OF assms])
  have opened: "tripPointEdit s' = Some (length (editViews s)) \<and> oneEditSession s' \<and>
            (\<forall>e. tripPointEdit s = Some e \<longrightarrow> \<not> editElement (editViews s' ! e))"
    if "onEdit tripPoint s = Inr s'" for tripPoint s'
    using onEdit_session[OF inv that] by simp
  have "s' = s \<or>
            tripPointEdit s' = Some (length (editViews s)) \<and> oneEditSession s' \<and>
            (\<forall>e. tripPointEdit s = Some e \<longrightarrow> \<not> editElement (editViews s' ! e))"
    if o: "openTripPointInEditMode i s = Inr s'" for i s'
  proof (cases "find (\<lambda>point. pointId (tpData (pointViews s ! point)) = i) (tripPoints s)")
    case None
    then show ?thesis using o by (simp add: openTripPointInEditMode_def)
  next
    case (Some v)
    then have "onEdit v s = Inr s'" using o by (simp add: openTripPointInEditMode_def)
    from opened[OF this] show ?thesis by simp
  qed
  then show ?thesis
    using inv opened by blast
qed

theorem at_most_one_edit_session_witness:
  "reachable exampleEditingFirst \<and>
   tripPointEdit exampleEditingFirst = Some 0 \<and>
   map editElement (editViews exampleEditingFirst) = [True] \<and>
   onEdit 1 exampleEditingFirst = Inr exampleEditingSecond \<and>
   tripPointEdit exampleEditingSecond = Some 1 \<and>
   map editElement (editViews exampleEditingSecond) = [False, True] \<and>
   oneEditSession exampleEditingSecond"
proof -
  have r0: "reachable exampleList"
    unfolding exampleList_def by (rule reachable.constructed)
  have u: "step Update exampleList = Inr exampleRendered"
    by (simp add: exampleRendered_def update_exampleList)
  have r1: "reachable exampleRendered"
    by (rule reachable.after[OF r0 _ u]) simp
  have e: "step (EditRequest 0) exampleRendered = Inr exampleEditingFirst"
    unfolding exampleEditingFirst_def exampleRendered_def
    apply (simp only: run.simps step.simps update_exampleList sum.case)
    apply (simp add: edit_simps exampleList_def newTripPointsList_def Let_def)
    done
  have p: "possible (EditRequest 0) exampleRendered"
    by (simp add: exampleRendered_def update_exampleList)
  have r2: "reachable exampleEditingFirst"
    by (rule reachable.after[OF r1 p e])
  have first: "exampleEditingFirst = exampleList\<lparr>
      tripPointEdit := Some 0,
      tripPoints := [1, 2],
      element := [DayEl \<lparr>dayNumber = Some 1, dayTitle = 10 * msPerDay,
                         dayItems = [EditEl 0 (examplePoint 1 10), PointEl 1 (examplePoint 2 10)]\<rparr>,
                  DayEl \<lparr>dayNumber = Some 2, dayTitle = 11 * msPerDay,
                         dayItems = [PointEl 2 (examplePoint 3 11)]\<rparr>],
      pointViews := [\<lparr>tpData = examplePoint 1 10, tpElement = False\<rparr>,
                     \<lparr>tpData = examplePoint 2 10, tpElement = True\<rparr>,
                     \<lparr>tpData = examplePoint 3 11, tpElement = True\<rparr>],
      editViews := [\<lparr>editData = examplePoint 1 10, editElement = True, editBlocked = Unblocked,
                     editShakes = 0, editUnsaved = False\<rparr>]\<rparr>"
    unfolding exampleEditingFirst_def
    apply (simp only: run.simps step.simps update_exampleList sum.case)
    apply (simp add: edit_simps exampleList_def newTripPointsList_def Let_def)
    done
  have second: "onEdit 1 exampleEditingFirst = Inr exampleEditingSecond \<and>
      tripPointEdit exampleEditingSecond = Some 1 \<and>
      map editElement (editViews exampleEditingSecond) = [False, True]"
    unfolding exampleEditingSecond_def first
    by (simp add: edit_simps exampleList_def newTripPointsList_def Let_def
        createTripPoint_def newTripPoint_def renderTripPoint_def)
  have f: "tripPointEdit exampleEditingFirst = Some 0"
    "map editElement (editViews exampleEditingFirst) = [True]"
    by (simp_all add: first)
  from at_most_one_edit_session [OF r2] second
  have "oneEditSession exampleEditingSecond" by blast
  then show ?thesis
    using r2 second f by simp
qed

end
